theory Spec2Isabelle
  imports Main "HOL-Library.Word" "HOL-Library.AList"
begin

section \<open>Data model of \<^verbatim>\<open>pkg/interfaces\<close> and \<^verbatim>\<open>pkg/plugin\<close>\<close>

text \<open>
  A reading of \<^verbatim>\<open>time.Now()\<close>. The zero \<^verbatim>\<open>time.Time\<close> is \<open>0\<close>.
\<close>

type_synonym time = int

text \<open>
  \<^verbatim>\<open>interfaces.PluginInfo\<close>. The values of \<^verbatim>\<open>ConfigSchema\<close>
  (\<^verbatim>\<open>map[string]interface{}\<close>) are opaque to the loader and kept as strings.
\<close>

record PluginInfo =
  Name :: string
  Version :: string
  Description :: string
  Author :: string
  ChannelType :: string
  Capabilities :: "string list"
  ConfigSchema :: "(string \<times> string) list"

text \<open>
  A call into plugin code either returns or panics; Go has no other way out of
  \<^verbatim>\<open>GetInfo() *PluginInfo\<close> and \<^verbatim>\<open>NewPlugin() interfaces.Plugin\<close>.
\<close>

datatype 'a call = Panic | Return 'a

text \<open>
  A value of the interface type \<^verbatim>\<open>interfaces.Plugin\<close>: the nil interface, or a
  reference to an object of the plugin, named by a number.
\<close>

datatype iface_Plugin = NilPlugin | PluginObj nat

text \<open>
  The memory of the plugins: the \<^verbatim>\<open>PluginInfo\<close> structs that plugin code has
  allocated, by address. A \<^verbatim>\<open>*PluginInfo\<close> is an address in this store (\<open>None\<close> is
  the nil pointer). The loader only reads this memory; plugin code reads and writes it.
  No pointer to the loader, its map or its records is ever passed to plugin code, so
  plugin code reaches nothing of the loader's heap.
\<close>

type_synonym plugin_mem = "PluginInfo list"

text \<open>
  Plugin code is third-party code that runs inside the loader's operations. A call
  starts in the plugin memory of that moment and ends with a result, or a panic, and the
  plugin memory it leaves: it may allocate new structs and write to those that exist.
\<close>

type_synonym 'a plugin_code = "plugin_mem \<Rightarrow> 'a call \<times> plugin_mem"

text \<open>
  What \<^verbatim>\<open>GetInfo()\<close> does on each plugin object: plugin code that returns a
  \<^verbatim>\<open>*PluginInfo\<close> or panics. It is a parameter of every operation that calls it.
\<close>

type_synonym plugin_env = "nat \<Rightarrow> nat option plugin_code"

text \<open>
  A method call on the nil interface is a nil dereference: it panics, and no plugin code
  runs.
\<close>

definition GetInfo :: "plugin_env \<Rightarrow> iface_Plugin \<Rightarrow> nat option plugin_code" where
  "GetInfo env instance h = (case instance of NilPlugin \<Rightarrow> (Panic, h) | PluginObj i \<Rightarrow> env i h)"

text \<open>
  A symbol exported by a shared object (\<^verbatim>\<open>plugin.Symbol\<close>, an \<^verbatim>\<open>interface{}\<close>): a
  \<^verbatim>\<open>func() interfaces.Plugin\<close>, which is plugin code, or a value of any other type.
  \<^verbatim>\<open>*plugin.Plugin\<close> is the opened shared object with its symbol table.
\<close>

datatype Symbol = NewPluginFn "iface_Plugin plugin_code" | OtherSymbol

datatype plugin_Plugin = SharedObject (symbols: "(string \<times> Symbol) list")

text \<open>
  \<^verbatim>\<open>plugin.Open\<close>: the file system, from a path to an error text or a shared object.
  Opening a shared object runs its \<^verbatim>\<open>init\<close> functions, which are plugin code too.
\<close>

type_synonym plugin_Open = "string \<Rightarrow> plugin_mem \<Rightarrow> (string + plugin_Plugin) \<times> plugin_mem"

definition Lookup :: "plugin_Plugin \<Rightarrow> string \<Rightarrow> string + Symbol" where
  "Lookup p symName =
     (case map_of (symbols p) symName of
        None \<Rightarrow> Inl (''plugin: symbol '' @ symName @ '' not found'')
      | Some v \<Rightarrow> Inr v)"

text \<open>
  \<^verbatim>\<open>LoadedPlugin\<close>. \<^verbatim>\<open>Info\<close> is the \<^verbatim>\<open>*PluginInfo\<close> that the plugin returned, a
  pointer into the plugin memory; \<^verbatim>\<open>UsageCount\<close> is an \<^verbatim>\<open>int64\<close>, read with \<open>sint\<close>.
\<close>

record LoadedPlugin =
  Path :: string
  Plugin :: plugin_Plugin
  Instance :: iface_Plugin
  Info :: "nat option"
  LoadedAt :: time
  LastUsed :: time
  UsageCount :: "64 word"

text \<open>
  \<^verbatim>\<open>sync.RWMutex\<close>: whether a writer holds it and how many readers do. It is not
  reentrant: \<^verbatim>\<open>Lock\<close> waits until nobody holds it, \<^verbatim>\<open>RLock\<close> until no writer does.
\<close>

record RWMutex =
  writer :: bool
  readers :: nat

text \<open>
  The errors of the package, one constructor per \<^verbatim>\<open>fmt.Errorf\<close> of \<^verbatim>\<open>loader.go\<close>;
  \<open>validation_error\<close> are the five messages of \<^verbatim>\<open>validatePluginInfo\<close>.
\<close>

datatype validation_error =
    InfoIsNil
  | NameRequired
  | VersionRequired
  | ChannelTypeRequired
  | CapabilityRequired

datatype error =
    AlreadyLoaded string
  | OpenFailed string string
  | MissingNewPlugin string string
  | WrongSignature string
  | ValidationFailed string validation_error
  | NotFound string

text \<open>
  How a call of an operation ends: it returns, it panics (the deferred unlock runs), or it
  waits for the mutex. An operation is modelled as one call running alone, so a mutex that
  is held when the call asks for it is never released and the wait does not end; nothing
  after the wait runs, no deferred call either.
\<close>

datatype 'a result = Returns 'a | Panics | Blocks

fun blocked :: "'a result \<Rightarrow> bool" where
  "blocked Blocks = True"
| "blocked _ = False"

text \<open>
  The state: the two fields of the \<^verbatim>\<open>PluginLoader\<close> struct, the heap they point
  into, and the memory of the plugins. \<^verbatim>\<open>plugins\<close> is a Go map, that is a reference to
  a map object; the map holds \<^verbatim>\<open>*LoadedPlugin\<close> pointers. Both kinds of object live in
  a store indexed by address. A map object is an association list; its order stands for
  the unspecified order of \<^verbatim>\<open>range\<close>.
\<close>

record state =
  plugins :: nat
  mutex :: RWMutex
  map_objs :: "(string \<times> nat) list list"
  rec_objs :: "LoadedPlugin list"
  info_objs :: plugin_mem

section \<open>Heap primitives\<close>

text \<open>The entries of a map object; an invalid reference reads as the nil map.\<close>

definition map_entries :: "state \<Rightarrow> nat \<Rightarrow> (string \<times> nat) list" where
  "map_entries s m = (if m < length (map_objs s) then map_objs s ! m else [])"

text \<open>\<^verbatim>\<open>v, exists := m[k]\<close>\<close>

definition map_get :: "state \<Rightarrow> nat \<Rightarrow> string \<Rightarrow> nat option" where
  "map_get s m k = map_of (map_entries s m) k"

text \<open>\<^verbatim>\<open>m[k] = v\<close> on a valid map object.\<close>

definition map_set :: "nat \<Rightarrow> string \<Rightarrow> nat \<Rightarrow> state \<Rightarrow> state" where
  "map_set m k v s = s\<lparr>map_objs := (map_objs s)[m := AList.update k v (map_entries s m)]\<rparr>"

text \<open>\<^verbatim>\<open>delete(m, k)\<close>\<close>

definition map_delete :: "nat \<Rightarrow> string \<Rightarrow> state \<Rightarrow> state" where
  "map_delete m k s = s\<lparr>map_objs := (map_objs s)[m := AList.delete k (map_entries s m)]\<rparr>"

text \<open>\<^verbatim>\<open>make(map[string]*LoadedPlugin)\<close>: a new map object at a fresh address.\<close>

definition make_map :: "state \<Rightarrow> nat \<times> state" where
  "make_map s = (length (map_objs s), s\<lparr>map_objs := map_objs s @ [[]]\<rparr>)"

text \<open>\<^verbatim>\<open>&LoadedPlugin{...}\<close>: a new record at a fresh address.\<close>

definition new_rec :: "LoadedPlugin \<Rightarrow> state \<Rightarrow> nat \<times> state" where
  "new_rec r s = (length (rec_objs s), s\<lparr>rec_objs := rec_objs s @ [r]\<rparr>)"

text \<open>Reading through a \<^verbatim>\<open>*LoadedPlugin\<close>; \<open>None\<close> is the nil dereference.\<close>

definition deref :: "state \<Rightarrow> nat \<Rightarrow> LoadedPlugin option" where
  "deref s a = (if a < length (rec_objs s) then Some (rec_objs s ! a) else None)"

text \<open>
  Reading through a \<^verbatim>\<open>*PluginInfo\<close>: nil stays nil (\<open>None\<close>), an address gives the
  struct that is there now. Go has no dangling pointers; an address outside the store is
  written out as a panic.
\<close>

definition read_info :: "plugin_mem \<Rightarrow> nat option \<Rightarrow> PluginInfo option call" where
  "read_info h info =
     (case info of
        None \<Rightarrow> Return None
      | Some p \<Rightarrow> if p < length h then Return (Some (h ! p)) else Panic)"

text \<open>Writing a field through a \<^verbatim>\<open>*LoadedPlugin\<close>.\<close>

definition rec_update :: "nat \<Rightarrow> (LoadedPlugin \<Rightarrow> LoadedPlugin) \<Rightarrow> state \<Rightarrow> state" where
  "rec_update a f s = s\<lparr>rec_objs := (rec_objs s)[a := f (rec_objs s ! a)]\<rparr>"

section \<open>The mutex\<close>

definition unlocked :: RWMutex where
  "unlocked = \<lparr>writer = False, readers = 0\<rparr>"

text \<open>\<^verbatim>\<open>pl.mutex.Lock()\<close>: \<open>None\<close> when the caller has to wait.\<close>

definition Lock :: "state \<Rightarrow> state option" where
  "Lock s =
     (if writer (mutex s) \<or> readers (mutex s) \<noteq> 0 then None
      else Some (s\<lparr>mutex := (mutex s)\<lparr>writer := True\<rparr>\<rparr>))"

definition Unlock :: "state \<Rightarrow> state" where
  "Unlock s = s\<lparr>mutex := (mutex s)\<lparr>writer := False\<rparr>\<rparr>"

definition RLock :: "state \<Rightarrow> state option" where
  "RLock s =
     (if writer (mutex s) then None
      else Some (s\<lparr>mutex := (mutex s)\<lparr>readers := Suc (readers (mutex s))\<rparr>\<rparr>))"

text \<open>\<^verbatim>\<open>RUnlock\<close> is only ever called by a holder of the read lock, so the count is positive.\<close>

definition RUnlock :: "state \<Rightarrow> state" where
  "RUnlock s = s\<lparr>mutex := (mutex s)\<lparr>readers := readers (mutex s) - 1\<rparr>\<rparr>"

text \<open>
  \<^verbatim>\<open>pl.mutex.Lock(); defer pl.mutex.Unlock(); body\<close>. The deferred call runs when the
  body returns or panics, not while it waits.
\<close>

definition with_Lock :: "(state \<Rightarrow> 'a result \<times> state) \<Rightarrow> state \<Rightarrow> 'a result \<times> state" where
  "with_Lock body s =
     (case Lock s of
        None \<Rightarrow> (Blocks, s)
      | Some s1 \<Rightarrow>
          (let (r, s2) = body s1 in if blocked r then (r, s2) else (r, Unlock s2)))"

definition with_RLock :: "(state \<Rightarrow> 'a result \<times> state) \<Rightarrow> state \<Rightarrow> 'a result \<times> state" where
  "with_RLock body s =
     (case RLock s of
        None \<Rightarrow> (Blocks, s)
      | Some s1 \<Rightarrow>
          (let (r, s2) = body s1 in if blocked r then (r, s2) else (r, RUnlock s2)))"

section \<open>The operations of \<^verbatim>\<open>PluginLoader\<close>\<close>

text \<open>
  \<^verbatim>\<open>NewPluginLoader\<close>: an unlocked loader whose map is a new, empty map object, in a
  program where no plugin code has run yet.
\<close>

definition NewPluginLoader :: state where
  "NewPluginLoader =
     \<lparr>plugins = 0, mutex = unlocked, map_objs = [[]], rec_objs = [], info_objs = []\<rparr>"

text \<open>
  \<^verbatim>\<open>validatePluginInfo\<close>, on what its argument points to (\<open>None\<close> for the nil
  pointer); the result \<open>None\<close> is the nil error.
\<close>

definition validatePluginInfo :: "PluginInfo option \<Rightarrow> validation_error option" where
  "validatePluginInfo info =
     (case info of
        None \<Rightarrow> Some InfoIsNil
      | Some i \<Rightarrow>
          if Name i = [] then Some NameRequired
          else if Version i = [] then Some VersionRequired
          else if ChannelType i = [] then Some ChannelTypeRequired
          else if length (Capabilities i) = 0 then Some CapabilityRequired
          else None)"

text \<open>
  \<^verbatim>\<open>LoadPlugin\<close> after it has taken the lock. \<^verbatim>\<open>plugin.Open\<close>, the factory and
  \<^verbatim>\<open>GetInfo\<close> run plugin code, one after the other, each in the plugin memory the one
  before has left. \<^verbatim>\<open>validatePluginInfo\<close> reads the struct behind the pointer that
  \<^verbatim>\<open>GetInfo\<close> returned, and the record keeps that pointer. The record is allocated and
  stored under \<open>channelID\<close> only on the last path; \<^verbatim>\<open>LastUsed\<close> and \<^verbatim>\<open>UsageCount\<close>
  are left at their zero values. An assignment into a nil map panics.
\<close>

definition LoadPlugin_body ::
  "plugin_Open \<Rightarrow> plugin_env \<Rightarrow> time \<Rightarrow> string \<Rightarrow> string \<Rightarrow> state \<Rightarrow> error option result \<times> state"
where
  "LoadPlugin_body fs env now pluginPath channelID s =
     (if map_get s (plugins s) channelID \<noteq> None then (Returns (Some (AlreadyLoaded channelID)), s)
      else case fs pluginPath (info_objs s) of
        (Inl err, h0) \<Rightarrow> (Returns (Some (OpenFailed pluginPath err)), s\<lparr>info_objs := h0\<rparr>)
      | (Inr p, h0) \<Rightarrow>
         (case Lookup p ''NewPlugin'' of
            Inl err \<Rightarrow> (Returns (Some (MissingNewPlugin pluginPath err)), s\<lparr>info_objs := h0\<rparr>)
          | Inr newPluginFunc \<Rightarrow>
             (case newPluginFunc of
                OtherSymbol \<Rightarrow> (Returns (Some (WrongSignature pluginPath)), s\<lparr>info_objs := h0\<rparr>)
              | NewPluginFn newPlugin \<Rightarrow>
                 (case newPlugin h0 of
                    (Panic, h1) \<Rightarrow> (Panics, s\<lparr>info_objs := h1\<rparr>)
                  | (Return instance, h1) \<Rightarrow>
                     (case GetInfo env instance h1 of
                        (Panic, h2) \<Rightarrow> (Panics, s\<lparr>info_objs := h2\<rparr>)
                      | (Return info, h2) \<Rightarrow>
                         (case read_info h2 info of
                            Panic \<Rightarrow> (Panics, s\<lparr>info_objs := h2\<rparr>)
                          | Return pointee \<Rightarrow>
                             (case validatePluginInfo pointee of
                                Some err \<Rightarrow>
                                  (Returns (Some (ValidationFailed pluginPath err)),
                                   s\<lparr>info_objs := h2\<rparr>)
                              | None \<Rightarrow>
                                 (let (a, s1) = new_rec \<lparr>Path = pluginPath, Plugin = p,
                                          Instance = instance, Info = info, LoadedAt = now,
                                          LastUsed = 0, UsageCount = 0\<rparr> (s\<lparr>info_objs := h2\<rparr>)
                                  in if plugins s1 < length (map_objs s1)
                                     then (Returns None, map_set (plugins s1) channelID a s1)
                                     else (Panics, s1)))))))))"

definition LoadPlugin ::
  "plugin_Open \<Rightarrow> plugin_env \<Rightarrow> time \<Rightarrow> string \<Rightarrow> string \<Rightarrow> state \<Rightarrow> error option result \<times> state"
where
  "LoadPlugin fs env now pluginPath channelID = with_Lock (LoadPlugin_body fs env now pluginPath channelID)"

text \<open>
  The registry as its callers see it: the record registered under a channel, read through
  the loader's map and the pointer stored there; and the metadata of a record, read
  through its \<^verbatim>\<open>Info\<close> pointer in the plugin memory of the state (\<open>None\<close> when the
  pointer is nil or refers to nothing).
\<close>

definition registered :: "state \<Rightarrow> string \<Rightarrow> LoadedPlugin option" where
  "registered s channelID =
     (case map_get s (plugins s) channelID of None \<Rightarrow> None | Some a \<Rightarrow> deref s a)"

definition metadata :: "state \<Rightarrow> LoadedPlugin \<Rightarrow> PluginInfo option" where
  "metadata s r =
     (case read_info (info_objs s) (Info r) of Panic \<Rightarrow> None | Return pointee \<Rightarrow> pointee)"

text \<open>
  \<^verbatim>\<open>GetPlugin\<close>, under the read lock. The two assignments go through the pointer held
  by the map, so they change the record the registry points to.
\<close>

definition GetPlugin_body :: "time \<Rightarrow> string \<Rightarrow> state \<Rightarrow> (error + iface_Plugin) result \<times> state" where
  "GetPlugin_body now channelID s =
     (case map_get s (plugins s) channelID of
        None \<Rightarrow> (Returns (Inl (NotFound channelID)), s)
      | Some loadedPlugin \<Rightarrow>
         (case deref s loadedPlugin of
            None \<Rightarrow> (Panics, s)
          | Some _ \<Rightarrow>
             (let s1 = rec_update loadedPlugin (\<lambda>r. r\<lparr>LastUsed := now\<rparr>) s;
                  s2 = rec_update loadedPlugin (\<lambda>r. r\<lparr>UsageCount := UsageCount r + 1\<rparr>) s1
              in (Returns (Inr (Instance (rec_objs s2 ! loadedPlugin))), s2))))"

definition GetPlugin :: "time \<Rightarrow> string \<Rightarrow> state \<Rightarrow> (error + iface_Plugin) result \<times> state" where
  "GetPlugin now channelID = with_RLock (GetPlugin_body now channelID)"

text \<open>\<^verbatim>\<open>UnloadPlugin\<close>\<close>

definition UnloadPlugin_body :: "string \<Rightarrow> state \<Rightarrow> error option result \<times> state" where
  "UnloadPlugin_body channelID s =
     (case map_get s (plugins s) channelID of
        None \<Rightarrow> (Returns (Some (NotFound channelID)), s)
      | Some _ \<Rightarrow> (Returns None, map_delete (plugins s) channelID s))"

definition UnloadPlugin :: "string \<Rightarrow> state \<Rightarrow> error option result \<times> state" where
  "UnloadPlugin channelID = with_Lock (UnloadPlugin_body channelID)"

text \<open>
  \<^verbatim>\<open>ListPlugins\<close>: a new map object, filled by the \<^verbatim>\<open>range\<close> loop with the keys and
  the pointers of the loader's map. The result is the reference to the new map.
\<close>

fun copy_entries :: "(string \<times> nat) list \<Rightarrow> nat \<Rightarrow> state \<Rightarrow> state" where
  "copy_entries [] result s = s"
| "copy_entries ((k, v) # rest) result s = copy_entries rest result (map_set result k v s)"

definition ListPlugins_body :: "state \<Rightarrow> nat result \<times> state" where
  "ListPlugins_body s =
     (let (result, s1) = make_map s
      in (Returns result, copy_entries (map_entries s1 (plugins s1)) result s1))"

definition ListPlugins :: "state \<Rightarrow> nat result \<times> state" where
  "ListPlugins = with_RLock ListPlugins_body"

text \<open>
  \<^verbatim>\<open>GetPluginInfo\<close>: the pointer that \<^verbatim>\<open>GetInfo\<close> returns on the stored instance,
  and the plugin memory as that call leaves it.
\<close>

definition GetPluginInfo_body ::
  "plugin_env \<Rightarrow> string \<Rightarrow> state \<Rightarrow> (error + nat option) result \<times> state"
where
  "GetPluginInfo_body env channelID s =
     (case map_get s (plugins s) channelID of
        None \<Rightarrow> (Returns (Inl (NotFound channelID)), s)
      | Some loadedPlugin \<Rightarrow>
         (case deref s loadedPlugin of
            None \<Rightarrow> (Panics, s)
          | Some r \<Rightarrow>
             (case GetInfo env (Instance r) (info_objs s) of
                (Panic, h) \<Rightarrow> (Panics, s\<lparr>info_objs := h\<rparr>)
              | (Return info, h) \<Rightarrow> (Returns (Inr info), s\<lparr>info_objs := h\<rparr>))))"

definition GetPluginInfo ::
  "plugin_env \<Rightarrow> string \<Rightarrow> state \<Rightarrow> (error + nat option) result \<times> state"
where
  "GetPluginInfo env channelID = with_RLock (GetPluginInfo_body env channelID)"

text \<open>
  \<^verbatim>\<open>ReloadPlugin\<close>: with the write lock held it removes the entry and then calls
  \<^verbatim>\<open>pl.LoadPlugin\<close>, the whole method, which starts by taking the same lock.
\<close>

definition ReloadPlugin_body ::
  "plugin_Open \<Rightarrow> plugin_env \<Rightarrow> time \<Rightarrow> string \<Rightarrow> state \<Rightarrow> error option result \<times> state"
where
  "ReloadPlugin_body fs env now channelID s =
     (case map_get s (plugins s) channelID of
        None \<Rightarrow> (Returns (Some (NotFound channelID)), s)
      | Some loadedPlugin \<Rightarrow>
         (let s1 = map_delete (plugins s) channelID s
          in case deref s1 loadedPlugin of
               None \<Rightarrow> (Panics, s1)
             | Some r \<Rightarrow> LoadPlugin fs env now (Path r) channelID s1))"

definition ReloadPlugin ::
  "plugin_Open \<Rightarrow> plugin_env \<Rightarrow> time \<Rightarrow> string \<Rightarrow> state \<Rightarrow> error option result \<times> state"
where
  "ReloadPlugin fs env now channelID = with_Lock (ReloadPlugin_body fs env now channelID)"

text \<open>
  \<^verbatim>\<open>HealthCheck\<close>: the \<^verbatim>\<open>range\<close> loop over the loader's map. Each \<^verbatim>\<open>GetInfo\<close>
  call runs in the plugin memory that the calls before it have left. There is no
  \<^verbatim>\<open>recover\<close>, so a panic of \<^verbatim>\<open>GetInfo\<close> ends the loop and the call. The result is a
  new \<^verbatim>\<open>map[string]bool\<close> that nothing else refers to, given as its entries.
\<close>

fun health_loop ::
  "plugin_env \<Rightarrow> state \<Rightarrow> (string \<times> nat) list \<Rightarrow> (string \<times> bool) list \<Rightarrow>
     (string \<times> bool) list plugin_code"
where
  "health_loop env s [] health h = (Return health, h)"
| "health_loop env s ((channelID, loadedPlugin) # rest) health h =
     (case deref s loadedPlugin of
        None \<Rightarrow> (Panic, h)
      | Some r \<Rightarrow>
         (case GetInfo env (Instance r) h of
            (Panic, h') \<Rightarrow> (Panic, h')
          | (Return info, h') \<Rightarrow>
              health_loop env s rest (AList.update channelID (info \<noteq> None) health) h'))"

definition HealthCheck_body :: "plugin_env \<Rightarrow> state \<Rightarrow> (string \<times> bool) list result \<times> state" where
  "HealthCheck_body env s =
     (case health_loop env s (map_entries s (plugins s)) [] (info_objs s) of
        (Panic, h) \<Rightarrow> (Panics, s\<lparr>info_objs := h\<rparr>)
      | (Return health, h) \<Rightarrow> (Returns health, s\<lparr>info_objs := h\<rparr>))"

text \<open>
  The plugin memory after \<^verbatim>\<open>GetInfo\<close> has been called, in turn, for the given entries
  of the loader's map. For the entries that come before a channel in the order of
  \<^verbatim>\<open>range\<close>, this is the memory in which \<^verbatim>\<open>HealthCheck\<close> calls \<^verbatim>\<open>GetInfo\<close> for that
  channel.
\<close>

fun sweep_mem :: "plugin_env \<Rightarrow> state \<Rightarrow> (string \<times> nat) list \<Rightarrow> plugin_mem \<Rightarrow> plugin_mem" where
  "sweep_mem env s [] h = h"
| "sweep_mem env s ((channelID, loadedPlugin) # rest) h =
     (case deref s loadedPlugin of
        None \<Rightarrow> h
      | Some r \<Rightarrow> sweep_mem env s rest (snd (GetInfo env (Instance r) h)))"

definition HealthCheck :: "plugin_env \<Rightarrow> state \<Rightarrow> (string \<times> bool) list result \<times> state" where
  "HealthCheck env = with_RLock (HealthCheck_body env)"

section \<open>Well-formed states\<close>

text \<open>
  What Go guarantees of every state the program can be in: the loader's map exists, a map
  has each key once, and a stored pointer refers to an allocated record.
\<close>

definition wf :: "state \<Rightarrow> bool" where
  "wf s \<longleftrightarrow>
     plugins s < length (map_objs s) \<and>
     distinct (map fst (map_entries s (plugins s))) \<and>
     list_all (\<lambda>(k, a). a < length (rec_objs s)) (map_entries s (plugins s))"

section \<open>Calls in sequence and calls in parallel\<close>

text \<open>
  \<^verbatim>\<open>GetPlugin\<close> called again and again by one goroutine, each call returning before the
  next starts; the list gives the clock reading of each call.
\<close>

fun GetPlugin_calls ::
  "time list \<Rightarrow> string \<Rightarrow> state \<Rightarrow> (error + iface_Plugin) result list \<times> state"
where
  "GetPlugin_calls [] channelID s = ([], s)"
| "GetPlugin_calls (now # ts) channelID s =
     (let (r, s1) = GetPlugin now channelID s;
          (rs, s2) = GetPlugin_calls ts channelID s1
      in (r # rs, s2))"

text \<open>
  \<^verbatim>\<open>GetPlugin\<close> statement by statement, for goroutines that run it at the same time.
  A goroutine is at one of these points; \<^verbatim>\<open>loadedPlugin.UsageCount++\<close> is a read of the
  field followed by a write of the value read plus one, and the pointer and the value
  read are local to the goroutine.
\<close>

datatype GetPlugin_pc =
    At_RLock
  | At_lookup
  | At_set_LastUsed nat
  | At_read_UsageCount nat
  | At_write_UsageCount nat "64 word"
  | At_return nat
  | Finished "(error + iface_Plugin) result"

text \<open>
  One statement of one goroutine. A goroutine at \<^verbatim>\<open>RLock\<close> stays there while a writer
  holds the mutex; the deferred \<^verbatim>\<open>RUnlock\<close> runs with the return.
\<close>

fun GetPlugin_step :: "time \<Rightarrow> string \<Rightarrow> GetPlugin_pc \<Rightarrow> state \<Rightarrow> GetPlugin_pc \<times> state" where
  "GetPlugin_step now channelID At_RLock s =
     (case RLock s of None \<Rightarrow> (At_RLock, s) | Some s1 \<Rightarrow> (At_lookup, s1))"
| "GetPlugin_step now channelID At_lookup s =
     (case map_get s (plugins s) channelID of
        None \<Rightarrow> (Finished (Returns (Inl (NotFound channelID))), RUnlock s)
      | Some loadedPlugin \<Rightarrow> (At_set_LastUsed loadedPlugin, s))"
| "GetPlugin_step now channelID (At_set_LastUsed loadedPlugin) s =
     (case deref s loadedPlugin of
        None \<Rightarrow> (Finished Panics, RUnlock s)
      | Some _ \<Rightarrow> (At_read_UsageCount loadedPlugin,
                   rec_update loadedPlugin (\<lambda>r. r\<lparr>LastUsed := now\<rparr>) s))"
| "GetPlugin_step now channelID (At_read_UsageCount loadedPlugin) s =
     (At_write_UsageCount loadedPlugin (UsageCount (rec_objs s ! loadedPlugin)), s)"
| "GetPlugin_step now channelID (At_write_UsageCount loadedPlugin n) s =
     (At_return loadedPlugin, rec_update loadedPlugin (\<lambda>r. r\<lparr>UsageCount := n + 1\<rparr>) s)"
| "GetPlugin_step now channelID (At_return loadedPlugin) s =
     (Finished (Returns (Inr (Instance (rec_objs s ! loadedPlugin)))), RUnlock s)"
| "GetPlugin_step now channelID (Finished r) s = (Finished r, s)"

text \<open>
  Goroutines running \<^verbatim>\<open>GetPlugin\<close> on one loader, each with its channel and the point
  it is at. A schedule names, step by step, the goroutine that runs its next statement
  and the clock reading at that moment.
\<close>

fun run ::
  "(nat \<times> time) list \<Rightarrow> (string \<times> GetPlugin_pc) list \<times> state \<Rightarrow> (string \<times> GetPlugin_pc) list \<times> state"
where
  "run [] cfg = cfg"
| "run ((i, now) # sched) (threads, s) =
     (if i < length threads
      then (let (channelID, pc) = threads ! i;
                (pc', s') = GetPlugin_step now channelID pc s
            in run sched (threads[i := (channelID, pc')], s'))
      else run sched (threads, s))"

section \<open>Test data\<close>

text \<open>The valid metadata of \<^verbatim>\<open>TestValidatePluginInfo\<close> in \<^verbatim>\<open>loader_test.go\<close>.\<close>

definition validInfo :: PluginInfo where
  "validInfo = \<lparr>Name = ''Test Plugin'', Version = ''1.0.0'', Description = [], Author = [],
     ChannelType = ''test'', Capabilities = [''collect_order''], ConfigSchema = []\<rparr>"

text \<open>
  Plugins in the manner of \<^verbatim>\<open>MockPlugin\<close> in \<^verbatim>\<open>loader_test.go\<close>, an object with a
  field \<^verbatim>\<open>info *PluginInfo\<close> that \<^verbatim>\<open>GetInfo\<close> returns. The factory allocates the
  struct with the valid metadata and makes the object that points to it; the object is
  numbered by the address of its struct.
\<close>

definition mock_NewPlugin :: "iface_Plugin plugin_code" where
  "mock_NewPlugin h = (Return (PluginObj (length h)), h @ [validInfo])"

definition mock_so :: plugin_Plugin where
  "mock_so = SharedObject [(''NewPlugin'', NewPluginFn mock_NewPlugin)]"

definition other_so :: plugin_Plugin where
  "other_so = SharedObject [(''Build'', OtherSymbol), (''NewPlugin'', NewPluginFn mock_NewPlugin)]"

text \<open>A shared object whose \<^verbatim>\<open>NewPlugin\<close> returns the nil interface.\<close>

definition nil_NewPlugin :: "iface_Plugin plugin_code" where
  "nil_NewPlugin h = (Return NilPlugin, h)"

definition nil_so :: plugin_Plugin where
  "nil_so = SharedObject [(''NewPlugin'', NewPluginFn nil_NewPlugin)]"

text \<open>
  A file system with three shared objects, two with the mock plugin (the second exports
  one more symbol) and the one whose factory returns nil; their \<^verbatim>\<open>init\<close> functions
  do nothing.
\<close>

definition test_fs :: plugin_Open where
  "test_fs path h =
     (if path = ''test.so'' then (Inr mock_so, h)
      else if path = ''other.so'' then (Inr other_so, h)
      else if path = ''nil.so'' then (Inr nil_so, h)
      else (Inl ''no such file'', h))"

text \<open>\<^verbatim>\<open>GetInfo\<close> of the mock plugin: it returns the pointer the object holds.\<close>

definition test_env :: plugin_env where
  "test_env i h = (Return (Some i), h)"

text \<open>The same plugins after object 1 has broken: its \<^verbatim>\<open>GetInfo\<close> panics.\<close>

definition broken_env :: plugin_env where
  "broken_env i h = (if i = 1 then (Panic, h) else (Return (Some i), h))"

text \<open>
  A plugin that surfaces a change of its own in its metadata: \<^verbatim>\<open>GetInfo\<close> writes a new
  version into the struct the object points to, and returns the pointer.
\<close>

definition upgrading_env :: plugin_env where
  "upgrading_env i h =
     (Return (Some i), if i < length h then h[i := (h ! i)\<lparr>Version := ''2.0.0''\<rparr>] else h)"

text \<open>The records that loading \<^verbatim>\<open>test.so\<close> at time 100 and \<^verbatim>\<open>other.so\<close> at time 200 create.\<close>

definition test_rec :: LoadedPlugin where
  "test_rec = \<lparr>Path = ''test.so'', Plugin = mock_so, Instance = PluginObj 0, Info = Some 0,
     LoadedAt = 100, LastUsed = 0, UsageCount = 0\<rparr>"

definition other_rec :: LoadedPlugin where
  "other_rec = \<lparr>Path = ''other.so'', Plugin = other_so, Instance = PluginObj 1, Info = Some 1,
     LoadedAt = 200, LastUsed = 0, UsageCount = 0\<rparr>"

text \<open>A loader with \<^verbatim>\<open>test.so\<close> loaded as channel \<^verbatim>\<open>test\<close>, and one with
  \<^verbatim>\<open>other.so\<close> loaded as channel \<^verbatim>\<open>other\<close> as well.\<close>

definition one_loaded :: state where
  "one_loaded = \<lparr>plugins = 0, mutex = unlocked, map_objs = [[(''test'', 0)]],
     rec_objs = [test_rec], info_objs = [validInfo]\<rparr>"

definition two_loaded :: state where
  "two_loaded = \<lparr>plugins = 0, mutex = unlocked, map_objs = [[(''test'', 0), (''other'', 1)]],
     rec_objs = [test_rec, other_rec], info_objs = [validInfo, validInfo]\<rparr>"

text \<open>
  Two goroutines in \<^verbatim>\<open>GetPlugin\<close> for the same channel: both read the counter before
  either writes it back.
\<close>

definition racy_schedule :: "(nat \<times> time) list" where
  "racy_schedule =
     [(0, 300), (0, 300), (0, 300), (0, 300),
      (1, 301), (1, 301), (1, 301), (1, 301),
      (0, 302), (0, 302), (1, 303), (1, 303)]"

section \<open>Basic facts\<close>

lemmas heap_defs = map_entries_def map_get_def map_set_def map_delete_def make_map_def
  new_rec_def deref_def rec_update_def registered_def

lemmas lock_defs = unlocked_def Lock_def Unlock_def RLock_def RUnlock_def with_Lock_def
  with_RLock_def

lemmas op_defs = LoadPlugin_def LoadPlugin_body_def GetPlugin_def GetPlugin_body_def
  UnloadPlugin_def UnloadPlugin_body_def ListPlugins_def ListPlugins_body_def
  GetPluginInfo_def GetPluginInfo_body_def ReloadPlugin_def ReloadPlugin_body_def
  HealthCheck_def HealthCheck_body_def GetInfo_def Lookup_def validatePluginInfo_def
  read_info_def metadata_def

lemmas test_defs = validInfo_def mock_NewPlugin_def mock_so_def other_so_def nil_NewPlugin_def
  nil_so_def
  test_fs_def
  test_env_def broken_env_def upgrading_env_def test_rec_def other_rec_def one_loaded_def
  two_loaded_def NewPluginLoader_def

text \<open>The mutex is not part of what the heap primitives read.\<close>

lemma mutex_upd_simps [simp]:
  "map_entries (s\<lparr>mutex := m\<rparr>) = map_entries s"
  "map_get (s\<lparr>mutex := m\<rparr>) = map_get s"
  "deref (s\<lparr>mutex := m\<rparr>) = deref s"
  by (auto simp: map_entries_def map_get_def deref_def fun_eq_iff)

lemma rec_objs_upd_simps [simp]:
  "map_entries (s\<lparr>rec_objs := x\<rparr>) = map_entries s"
  "map_get (s\<lparr>rec_objs := x\<rparr>) = map_get s"
  by (auto simp: map_entries_def map_get_def fun_eq_iff)

lemma registered_mutex [simp]: "registered (s\<lparr>mutex := m\<rparr>) = registered s"
  by (auto simp: registered_def fun_eq_iff split: option.splits)

text \<open>The plugin memory is not part of what the registry is read from.\<close>

lemma info_objs_upd_simps [simp]:
  "map_entries (s\<lparr>info_objs := h\<rparr>) = map_entries s"
  "map_get (s\<lparr>info_objs := h\<rparr>) = map_get s"
  "deref (s\<lparr>info_objs := h\<rparr>) = deref s"
  by (auto simp: map_entries_def map_get_def deref_def fun_eq_iff)

lemma registered_info_objs [simp]: "registered (s\<lparr>info_objs := h\<rparr>) = registered s"
  by (auto simp: registered_def fun_eq_iff split: option.splits)

lemma metadata_mutex [simp]: "metadata (s\<lparr>mutex := m\<rparr>) = metadata s"
  by (auto simp: metadata_def fun_eq_iff)

lemma registered_SomeD:
  "registered s c = Some r \<Longrightarrow> \<exists>a. map_get s (plugins s) c = Some a \<and> deref s a = Some r"
  by (auto simp: registered_def split: option.splits)

text \<open>Releasing the mutex after taking it gives the state back.\<close>

lemma Unlock_Lock: "Lock s = Some s1 \<Longrightarrow> Unlock s1 = s"
  by (cases s) (auto simp: Lock_def Unlock_def split: if_splits)

lemma RUnlock_RLock: "RLock s = Some s1 \<Longrightarrow> RUnlock s1 = s"
  by (cases s) (auto simp: RLock_def RUnlock_def split: if_splits)

lemma Lock_unlocked:
  "mutex s = unlocked \<Longrightarrow> Lock s = Some (s\<lparr>mutex := \<lparr>writer = True, readers = 0\<rparr>\<rparr>)"
  by (simp add: Lock_def unlocked_def)

lemma RLock_unlocked:
  "mutex s = unlocked \<Longrightarrow> RLock s = Some (s\<lparr>mutex := \<lparr>writer = False, readers = Suc 0\<rparr>\<rparr>)"
  by (simp add: RLock_def unlocked_def)

lemma with_Lock_unchanged:
  assumes "Lock s = Some s1" and "body s1 = (r, s1)" and "\<not> blocked r"
  shows "with_Lock body s = (r, s)"
  using assms by (simp add: with_Lock_def Unlock_Lock)

lemma with_RLock_unchanged:
  assumes "RLock s = Some s1" and "body s1 = (r, s1)" and "\<not> blocked r"
  shows "with_RLock body s = (r, s)"
  using assms by (simp add: with_RLock_def RUnlock_RLock)

text \<open>A body that returns or panics having changed the plugin memory only.\<close>

lemma Unlock_info_objs: "Unlock (s\<lparr>info_objs := h\<rparr>) = (Unlock s)\<lparr>info_objs := h\<rparr>"
  by (simp add: Unlock_def)

lemma RUnlock_info_objs: "RUnlock (s\<lparr>info_objs := h\<rparr>) = (RUnlock s)\<lparr>info_objs := h\<rparr>"
  by (simp add: RUnlock_def)

lemma with_Lock_info_objs:
  assumes "Lock s = Some s1" and "body s1 = (r, s1\<lparr>info_objs := h\<rparr>)" and "\<not> blocked r"
  shows "with_Lock body s = (r, s\<lparr>info_objs := h\<rparr>)"
  using assms by (simp add: with_Lock_def Unlock_info_objs Unlock_Lock)

lemma with_RLock_info_objs:
  assumes "RLock s = Some s1" and "body s1 = (r, s1\<lparr>info_objs := h\<rparr>)" and "\<not> blocked r"
  shows "with_RLock body s = (r, s\<lparr>info_objs := h\<rparr>)"
  using assms by (simp add: with_RLock_def RUnlock_info_objs RUnlock_RLock)

text \<open>The test data is what the operations produce from a new loader.\<close>

lemma load_test_so:
  "LoadPlugin test_fs test_env 100 ''test.so'' ''test'' NewPluginLoader = (Returns None, one_loaded)"
  by (simp add: op_defs lock_defs heap_defs test_defs)

lemma load_other_so:
  "LoadPlugin test_fs test_env 200 ''other.so'' ''other'' one_loaded = (Returns None, two_loaded)"
  by (simp add: op_defs lock_defs heap_defs test_defs)

lemma registered_one_loaded: "registered one_loaded ''test'' = Some test_rec"
  by (simp add: heap_defs test_defs)

lemma mutex_one_loaded: "mutex one_loaded = unlocked"
  by (simp add: one_loaded_def)

section \<open>Metadata validation on load\<close>

lemma validatePluginInfo_None_iff:
  "validatePluginInfo info = None \<longleftrightarrow>
     (\<exists>i. info = Some i \<and> Name i \<noteq> [] \<and> Version i \<noteq> [] \<and> ChannelType i \<noteq> [] \<and>
          Capabilities i \<noteq> [])"
  by (cases info) (auto simp: validatePluginInfo_def)

lemma LoadPlugin_body_inserts:
  assumes "LoadPlugin_body fs env now pluginPath channelID s = (res, s')"
    and "registered s' c = Some r" and "registered s c \<noteq> Some r"
  shows "validatePluginInfo (metadata s' r) = None"
  using assms
  apply (auto simp: LoadPlugin_body_def
      split: if_splits sum.splits Symbol.splits call.splits option.splits prod.splits)
  apply (auto simp: new_rec_def registered_def map_get_def map_entries_def map_set_def deref_def
      nth_append AList.update_conv' metadata_def read_info_def
      split: if_splits option.splits)
  done

lemma LoadPlugin_inserts:
  assumes "LoadPlugin fs env now pluginPath channelID s = (res, s')"
    and "registered s' c = Some r" and "registered s c \<noteq> Some r"
  shows "validatePluginInfo (metadata s' r) = None"
  using assms
  apply (auto simp: LoadPlugin_def with_Lock_def Lock_def Unlock_def split: if_splits prod.splits)
   apply (drule LoadPlugin_body_inserts; simp)+
  done

text \<open>
  C1. \<^verbatim>\<open>validatePluginInfo\<close> returns an error exactly when the metadata is nil, or its
  name, version or channel type is empty, or it declares no capability. And whatever
  \<^verbatim>\<open>LoadPlugin\<close> is called with and however it ends, a record that is registered under
  some channel afterwards and was not registered there before has metadata that passes
  this validation: when the call ends, the record's \<^verbatim>\<open>Info\<close> pointer refers to a
  struct with all four fields non-empty.
\<close>

theorem validatePluginInfo_admission:
  "(validatePluginInfo info \<noteq> None \<longleftrightarrow>
      (case info of
         None \<Rightarrow> True
       | Some i \<Rightarrow> Name i = [] \<or> Version i = [] \<or> ChannelType i = [] \<or> Capabilities i = [])) \<and>
   (LoadPlugin fs env now pluginPath channelID s = (res, s') \<longrightarrow>
      registered s' c = Some r \<longrightarrow> registered s c \<noteq> Some r \<longrightarrow>
      validatePluginInfo (metadata s' r) = None)"
proof (intro conjI impI)
  show "validatePluginInfo info \<noteq> None \<longleftrightarrow>
      (case info of
         None \<Rightarrow> True
       | Some i \<Rightarrow> Name i = [] \<or> Version i = [] \<or> ChannelType i = [] \<or> Capabilities i = [])"
    by (cases info) (auto simp: validatePluginInfo_def)
next
  assume "LoadPlugin fs env now pluginPath channelID s = (res, s')"
    and "registered s' c = Some r" and "registered s c \<noteq> Some r"
  then show "validatePluginInfo (metadata s' r) = None"
    by (rule LoadPlugin_inserts)
qed

theorem validatePluginInfo_admission_witness:
  "LoadPlugin test_fs test_env 100 ''test.so'' ''test'' NewPluginLoader = (Returns None, one_loaded) \<and>
   registered one_loaded ''test'' = Some test_rec \<and>
   registered NewPluginLoader ''test'' \<noteq> Some test_rec \<and>
   metadata one_loaded test_rec = Some validInfo \<and>
   validatePluginInfo (metadata one_loaded test_rec) = None \<and>
   validatePluginInfo None \<noteq> None"
proof -
  have 1: "LoadPlugin test_fs test_env 100 ''test.so'' ''test'' NewPluginLoader = (Returns None, one_loaded)"
    by (rule load_test_so)
  have 2: "registered one_loaded ''test'' = Some test_rec"
    by (rule registered_one_loaded)
  have 3: "registered NewPluginLoader ''test'' \<noteq> Some test_rec"
    by (simp add: heap_defs test_defs)
  have 4: "validatePluginInfo (metadata one_loaded test_rec) = None"
    using validatePluginInfo_admission [THEN conjunct2, rule_format, OF 1 2 3] .
  have 5: "validatePluginInfo None \<noteq> None"
    using validatePluginInfo_admission [THEN conjunct1, of None] by simp
  have 6: "metadata one_loaded test_rec = Some validInfo"
    by (simp add: metadata_def read_info_def one_loaded_def test_rec_def)
  from 1 2 3 4 5 6 show ?thesis by simp
qed

section \<open>Loading a channel twice\<close>

text \<open>
  C3. When a record is registered under \<open>channelID\<close> and nobody holds the mutex,
  \<^verbatim>\<open>LoadPlugin\<close> with that channel and any path returns the already-loaded error and
  the state after the call is the state before it: the registered record, its counter
  and its timestamps are the same, and nothing has been allocated or inserted.
\<close>

theorem LoadPlugin_already_loaded:
  assumes "mutex s = unlocked" and "registered s channelID = Some r"
  shows "LoadPlugin fs env now pluginPath channelID s = (Returns (Some (AlreadyLoaded channelID)), s)"
proof -
  from assms(2) obtain a where a: "map_get s (plugins s) channelID = Some a"
    by (auto dest: registered_SomeD)
  let ?s1 = "s\<lparr>mutex := \<lparr>writer = True, readers = 0\<rparr>\<rparr>"
  have l: "Lock s = Some ?s1"
    using assms(1) by (rule Lock_unlocked)
  have "LoadPlugin_body fs env now pluginPath channelID ?s1 =
      (Returns (Some (AlreadyLoaded channelID)), ?s1)"
    using a by (simp add: LoadPlugin_body_def)
  with l show ?thesis
    unfolding LoadPlugin_def by (intro with_Lock_unchanged) auto
qed

theorem LoadPlugin_already_loaded_witness:
  "mutex one_loaded = unlocked \<and> registered one_loaded ''test'' = Some test_rec \<and>
   LoadPlugin test_fs test_env 150 ''other.so'' ''test'' one_loaded =
     (Returns (Some (AlreadyLoaded ''test'')), one_loaded)"
  using LoadPlugin_already_loaded [OF mutex_one_loaded registered_one_loaded,
      of test_fs test_env 150 "''other.so''"]
    mutex_one_loaded registered_one_loaded
  by simp

section \<open>Operations on a channel that is not registered\<close>

text \<open>
  C5. When the loader's map has no entry for \<open>channelID\<close> and nobody holds the mutex,
  each of \<^verbatim>\<open>GetPlugin\<close>, \<^verbatim>\<open>UnloadPlugin\<close>, \<^verbatim>\<open>ReloadPlugin\<close> and \<^verbatim>\<open>GetPluginInfo\<close>
  returns the not-found error for that channel, and the state after the call is the
  state before it (so the map, its size and every record are unchanged).
\<close>

theorem absent_channel_NotFound:
  assumes "mutex s = unlocked" and "map_get s (plugins s) channelID = None"
  shows "GetPlugin now channelID s = (Returns (Inl (NotFound channelID)), s) \<and>
         UnloadPlugin channelID s = (Returns (Some (NotFound channelID)), s) \<and>
         ReloadPlugin fs env now channelID s = (Returns (Some (NotFound channelID)), s) \<and>
         GetPluginInfo env channelID s = (Returns (Inl (NotFound channelID)), s)"
proof -
  let ?w = "s\<lparr>mutex := \<lparr>writer = True, readers = 0\<rparr>\<rparr>"
  let ?r = "s\<lparr>mutex := \<lparr>writer = False, readers = Suc 0\<rparr>\<rparr>"
  have l: "Lock s = Some ?w"
    using assms(1) by (rule Lock_unlocked)
  have rl: "RLock s = Some ?r"
    using assms(1) by (rule RLock_unlocked)
  have "GetPlugin now channelID s = (Returns (Inl (NotFound channelID)), s)"
    unfolding GetPlugin_def using assms(2)
    by (intro with_RLock_unchanged[OF rl]) (simp_all add: GetPlugin_body_def)
  moreover have "UnloadPlugin channelID s = (Returns (Some (NotFound channelID)), s)"
    unfolding UnloadPlugin_def using assms(2)
    by (intro with_Lock_unchanged[OF l]) (simp_all add: UnloadPlugin_body_def)
  moreover have "ReloadPlugin fs env now channelID s = (Returns (Some (NotFound channelID)), s)"
    unfolding ReloadPlugin_def using assms(2)
    by (intro with_Lock_unchanged[OF l]) (simp_all add: ReloadPlugin_body_def)
  moreover have "GetPluginInfo env channelID s = (Returns (Inl (NotFound channelID)), s)"
    unfolding GetPluginInfo_def using assms(2)
    by (intro with_RLock_unchanged[OF rl]) (simp_all add: GetPluginInfo_body_def)
  ultimately show ?thesis by simp
qed

theorem absent_channel_NotFound_witness:
  "UnloadPlugin ''test'' one_loaded = (Returns None, one_loaded\<lparr>map_objs := [[]]\<rparr>) \<and>
   mutex (one_loaded\<lparr>map_objs := [[]]\<rparr>) = unlocked \<and>
   map_get (one_loaded\<lparr>map_objs := [[]]\<rparr>) (plugins (one_loaded\<lparr>map_objs := [[]]\<rparr>)) ''test'' = None \<and>
   GetPlugin 7 ''test'' (one_loaded\<lparr>map_objs := [[]]\<rparr>) =
     (Returns (Inl (NotFound ''test'')), one_loaded\<lparr>map_objs := [[]]\<rparr>) \<and>
   UnloadPlugin ''test'' (one_loaded\<lparr>map_objs := [[]]\<rparr>) =
     (Returns (Some (NotFound ''test'')), one_loaded\<lparr>map_objs := [[]]\<rparr>) \<and>
   ReloadPlugin test_fs test_env 7 ''test'' (one_loaded\<lparr>map_objs := [[]]\<rparr>) =
     (Returns (Some (NotFound ''test'')), one_loaded\<lparr>map_objs := [[]]\<rparr>) \<and>
   GetPluginInfo test_env ''test'' (one_loaded\<lparr>map_objs := [[]]\<rparr>) =
     (Returns (Inl (NotFound ''test'')), one_loaded\<lparr>map_objs := [[]]\<rparr>)"
proof -
  let ?s = "one_loaded\<lparr>map_objs := [[]]\<rparr>"
  have 0: "UnloadPlugin ''test'' one_loaded = (Returns None, ?s)"
    by (simp add: op_defs lock_defs heap_defs one_loaded_def)
  have 1: "mutex ?s = unlocked"
    by (simp add: one_loaded_def)
  have 2: "map_get ?s (plugins ?s) ''test'' = None"
    by (simp add: heap_defs one_loaded_def)
  from absent_channel_NotFound [OF 1 2, of 7 test_fs test_env] 0 1 2 show ?thesis
    by simp
qed

section \<open>Reloading a registered channel\<close>

text \<open>
  \<^verbatim>\<open>ReloadPlugin\<close> on a registered channel, with nobody else holding the mutex: the
  entry is removed, and the call of \<^verbatim>\<open>LoadPlugin\<close> then waits for the mutex that
  \<^verbatim>\<open>ReloadPlugin\<close> itself holds. The call never returns; the channel is left
  unregistered and the mutex write-locked.
\<close>

lemma ReloadPlugin_registered_Blocks:
  assumes "mutex s = unlocked" and "registered s channelID = Some r"
  shows "ReloadPlugin fs env now channelID s =
     (Blocks, map_delete (plugins s) channelID (s\<lparr>mutex := \<lparr>writer = True, readers = 0\<rparr>\<rparr>))"
proof -
  from assms(2) obtain a where a: "map_get s (plugins s) channelID = Some a" "deref s a = Some r"
    by (auto dest: registered_SomeD)
  let ?s1 = "s\<lparr>mutex := \<lparr>writer = True, readers = 0\<rparr>\<rparr>"
  let ?s2 = "map_delete (plugins s) channelID ?s1"
  have l: "Lock s = Some ?s1"
    using assms(1) by (rule Lock_unlocked)
  have d: "deref ?s2 a = Some r"
    using a(2) by (auto simp: deref_def map_delete_def split: if_splits)
  have "Lock ?s2 = None"
    by (simp add: Lock_def map_delete_def)
  then have "LoadPlugin fs env now (Path r) channelID ?s2 = (Blocks, ?s2)"
    by (simp add: LoadPlugin_def with_Lock_def)
  then have "ReloadPlugin_body fs env now channelID ?s1 = (Blocks, ?s2)"
    using a(1) d by (simp add: ReloadPlugin_body_def)
  then show ?thesis
    using l by (simp add: ReloadPlugin_def with_Lock_def)
qed

text \<open>
  C4, at a loader with \<^verbatim>\<open>test.so\<close> registered as channel \<^verbatim>\<open>test\<close>, the file still
  loadable: \<^verbatim>\<open>ReloadPlugin\<close> does not return. It removes the entry and then waits for
  the mutex it holds itself, so the channel is not registered again with a fresh record,
  and the mutex stays write-locked.
\<close>

theorem ReloadPlugin_deadlocks:
  "registered one_loaded ''test'' = Some test_rec \<and>
   LoadPlugin test_fs test_env 500 ''test.so'' ''test'' NewPluginLoader =
     (Returns None, NewPluginLoader\<lparr>map_objs := [[(''test'', 0)]],
        rec_objs := [test_rec\<lparr>LoadedAt := 500\<rparr>], info_objs := [validInfo]\<rparr>) \<and>
   ReloadPlugin test_fs test_env 500 ''test'' one_loaded =
     (Blocks, one_loaded\<lparr>mutex := \<lparr>writer = True, readers = 0\<rparr>, map_objs := [[]]\<rparr>) \<and>
   registered (snd (ReloadPlugin test_fs test_env 500 ''test'' one_loaded)) ''test'' = None"
  by (simp add: op_defs lock_defs heap_defs test_defs)

section \<open>A factory that returns nil\<close>

text \<open>
  With a free mutex and an unregistered channel, a factory that returns the nil interface
  makes \<^verbatim>\<open>LoadPlugin\<close> panic, whatever the loader holds; only the plugin memory may
  have changed, by what \<^verbatim>\<open>plugin.Open\<close> and the factory did.
\<close>

lemma LoadPlugin_nil_instance:
  assumes "mutex s = unlocked" and "map_get s (plugins s) channelID = None"
    and "fs pluginPath (info_objs s) = (Inr p, h0)"
    and "Lookup p ''NewPlugin'' = Inr (NewPluginFn newPlugin)"
    and "newPlugin h0 = (Return NilPlugin, h1)"
  shows "LoadPlugin fs env now pluginPath channelID s = (Panics, s\<lparr>info_objs := h1\<rparr>)"
proof -
  let ?s1 = "s\<lparr>mutex := \<lparr>writer = True, readers = 0\<rparr>\<rparr>"
  have l: "Lock s = Some ?s1"
    using assms(1) by (rule Lock_unlocked)
  have "LoadPlugin_body fs env now pluginPath channelID ?s1 = (Panics, ?s1\<lparr>info_objs := h1\<rparr>)"
    using assms(2-5) by (simp add: LoadPlugin_body_def GetInfo_def)
  with l show ?thesis
    unfolding LoadPlugin_def by (intro with_Lock_info_objs) auto
qed

text \<open>
  C6, at a shared object whose \<^verbatim>\<open>NewPlugin\<close> returns the nil interface:
  \<^verbatim>\<open>LoadPlugin\<close> calls \<^verbatim>\<open>GetInfo\<close> on the nil instance and panics. It returns no error,
  and registers nothing.
\<close>

theorem LoadPlugin_nil_instance_panics:
  "test_fs ''nil.so'' [] = (Inr nil_so, []) \<and>
   Lookup nil_so ''NewPlugin'' = Inr (NewPluginFn nil_NewPlugin) \<and>
   nil_NewPlugin [] = (Return NilPlugin, []) \<and>
   GetInfo test_env NilPlugin [] = (Panic, []) \<and>
   LoadPlugin test_fs test_env 100 ''nil.so'' ''test'' NewPluginLoader = (Panics, NewPluginLoader)"
  by (simp add: op_defs lock_defs heap_defs test_defs)

section \<open>Operations that only read\<close>

text \<open>
  \<^verbatim>\<open>GetPluginInfo\<close> and \<^verbatim>\<open>HealthCheck\<close> run plugin code and write nothing
  themselves: however they end, the state differs from the one before in the plugin
  memory at most.
\<close>

lemma with_RLock_body_info_objs:
  assumes "\<And>s1. \<exists>r h. body s1 = (r, s1\<lparr>info_objs := h\<rparr>) \<and> \<not> blocked r"
  shows "\<exists>h. snd (with_RLock body s) = s\<lparr>info_objs := h\<rparr>"
proof (cases "RLock s")
  case None
  then have "snd (with_RLock body s) = s\<lparr>info_objs := info_objs s\<rparr>"
    by (simp add: with_RLock_def)
  then show ?thesis ..
next
  case (Some s1)
  from assms[of s1] obtain r h where "body s1 = (r, s1\<lparr>info_objs := h\<rparr>)" "\<not> blocked r"
    by blast
  with Some have "with_RLock body s = (r, s\<lparr>info_objs := h\<rparr>)"
    by (rule with_RLock_info_objs)
  then show ?thesis by auto
qed

lemma only_info_objs:
  "\<exists>h. s' = s\<lparr>info_objs := h\<rparr> \<Longrightarrow> s' = s\<lparr>info_objs := info_objs s'\<rparr>"
  by auto

lemma GetPluginInfo_state:
  "snd (GetPluginInfo env channelID s) =
     s\<lparr>info_objs := info_objs (snd (GetPluginInfo env channelID s))\<rparr>"
proof (rule only_info_objs)
  have "\<exists>r h. GetPluginInfo_body env channelID s1 = (r, s1\<lparr>info_objs := h\<rparr>) \<and> \<not> blocked r" for s1
  proof -
    have e: "s1 = s1\<lparr>info_objs := info_objs s1\<rparr>" by simp
    show ?thesis
      by (auto simp: GetPluginInfo_body_def split: option.splits call.splits prod.splits
          intro: e)
  qed
  then show "\<exists>h. snd (GetPluginInfo env channelID s) = s\<lparr>info_objs := h\<rparr>"
    unfolding GetPluginInfo_def by (rule with_RLock_body_info_objs)
qed

lemma HealthCheck_state:
  "snd (HealthCheck env s) = s\<lparr>info_objs := info_objs (snd (HealthCheck env s))\<rparr>"
proof (rule only_info_objs)
  have "\<exists>r h. HealthCheck_body env s1 = (r, s1\<lparr>info_objs := h\<rparr>) \<and> \<not> blocked r" for s1
    by (auto simp: HealthCheck_body_def split: call.splits prod.splits)
  then show "\<exists>h. snd (HealthCheck env s) = s\<lparr>info_objs := h\<rparr>"
    unfolding HealthCheck_def by (rule with_RLock_body_info_objs)
qed

text \<open>The copy loop of \<^verbatim>\<open>ListPlugins\<close> writes to the new map object only.\<close>

lemma copy_entries_fields:
  "plugins (copy_entries es m s) = plugins s \<and> mutex (copy_entries es m s) = mutex s \<and>
   rec_objs (copy_entries es m s) = rec_objs s \<and>
   length (map_objs (copy_entries es m s)) = length (map_objs s)"
  by (induction es m s rule: copy_entries.induct) (auto simp: map_set_def)

lemma copy_entries_other:
  "i \<noteq> m \<Longrightarrow> map_objs (copy_entries es m s) ! i = map_objs s ! i"
  by (induction es m s rule: copy_entries.induct) (auto simp: map_set_def)

lemma update_absent: "k \<notin> fst ` set al \<Longrightarrow> AList.update k v al = al @ [(k, v)]"
  by (induction al) auto

lemma copy_entries_result:
  "m < length (map_objs s) \<Longrightarrow> distinct (map fst (map_entries s m @ es)) \<Longrightarrow>
   map_entries (copy_entries es m s) m = map_entries s m @ es"
proof (induction es m s rule: copy_entries.induct)
  case (1 result s)
  then show ?case by simp
next
  case (2 k v rest result s)
  have e: "map_entries (map_set result k v s) result = map_entries s result @ [(k, v)]"
    using 2(2,3) by (auto simp: map_set_def map_entries_def update_absent)
  have "map_entries (copy_entries rest result (map_set result k v s)) result =
        map_entries (map_set result k v s) result @ rest"
    using 2(2,3) e by (intro 2(1)) (auto simp: map_set_def)
  then show ?case using e by simp
qed

lemma ListPlugins_body_props:
  assumes "plugins s < length (map_objs s)" and "ListPlugins_body s = (res, s')"
  shows "res = Returns (length (map_objs s))" and "plugins s' = plugins s"
    and "mutex s' = mutex s" and "rec_objs s' = rec_objs s"
    and "length (map_objs s') = Suc (length (map_objs s))"
    and "map_entries s' (plugins s) = map_entries s (plugins s)"
  using assms
  by (auto simp: ListPlugins_body_def make_map_def copy_entries_fields copy_entries_other
      map_entries_def nth_append)

lemma ListPlugins_body_copy:
  assumes "plugins s < length (map_objs s)" and "distinct (map fst (map_entries s (plugins s)))"
  shows "map_entries (snd (ListPlugins_body s)) (length (map_objs s)) = map_entries s (plugins s)"
proof -
  let ?s1 = "s\<lparr>map_objs := map_objs s @ [[]]\<rparr>"
  let ?m = "length (map_objs s)"
  have 1: "map_entries ?s1 ?m = []" by (simp add: map_entries_def)
  have 2: "map_entries ?s1 (plugins s) = map_entries s (plugins s)"
    using assms(1) by (simp add: map_entries_def nth_append)
  have "map_entries (copy_entries (map_entries ?s1 (plugins s)) ?m ?s1) ?m
      = map_entries ?s1 ?m @ map_entries ?s1 (plugins s)"
    by (rule copy_entries_result) (use assms 1 2 in auto)
  then show ?thesis by (simp add: ListPlugins_body_def make_map_def 1 2)
qed

text \<open>
  \<^verbatim>\<open>ListPlugins\<close> on a loader whose map exists and that no writer holds: the result is
  the address of the new map object, and only that object is new in the state.
\<close>

lemma registered_cong:
  "plugins s' = plugins s \<Longrightarrow> rec_objs s' = rec_objs s \<Longrightarrow>
   map_entries s' (plugins s') = map_entries s (plugins s) \<Longrightarrow> registered s' = registered s"
  by (auto simp: registered_def map_get_def deref_def fun_eq_iff split: option.splits)

lemma ListPlugins_result:
  assumes "plugins s < length (map_objs s)" and "\<not> writer (mutex s)"
  obtains s' where "ListPlugins s = (Returns (length (map_objs s)), s')"
    and "plugins s' = plugins s" and "mutex s' = mutex s" and "rec_objs s' = rec_objs s"
    and "length (map_objs s') = Suc (length (map_objs s))"
    and "map_entries s' (plugins s') = map_entries s (plugins s)"
    and "distinct (map fst (map_entries s (plugins s))) \<Longrightarrow>
         map_entries s' (length (map_objs s)) = map_entries s (plugins s)"
proof -
  let ?s1 = "s\<lparr>mutex := (mutex s)\<lparr>readers := Suc (readers (mutex s))\<rparr>\<rparr>"
  have rl: "RLock s = Some ?s1"
    using assms(2) by (simp add: RLock_def)
  obtain res s2 where b: "ListPlugins_body ?s1 = (res, s2)"
    by (cases "ListPlugins_body ?s1")
  have v: "plugins ?s1 < length (map_objs ?s1)"
    using assms(1) by simp
  note q = ListPlugins_body_props[OF v b]
  have p: "res = Returns (length (map_objs s))" "plugins s2 = plugins s" "mutex s2 = mutex ?s1"
    "rec_objs s2 = rec_objs s" "length (map_objs s2) = Suc (length (map_objs s))"
    "map_entries s2 (plugins s) = map_entries s (plugins s)"
    using q by simp_all
  have c: "map_entries s2 (length (map_objs s)) = map_entries s (plugins s)"
    if "distinct (map fst (map_entries s (plugins s)))"
    using ListPlugins_body_copy[OF v] that b by simp
  have m: "mutex (RUnlock s2) = mutex s"
    using p(3) by (cases "mutex s") (simp add: RUnlock_def)
  have l: "ListPlugins s = (Returns (length (map_objs s)), RUnlock s2)"
    using rl b p(1) by (simp add: ListPlugins_def with_RLock_def)
  show thesis
  proof (rule that[OF l])
    show "plugins (RUnlock s2) = plugins s" using p by (simp add: RUnlock_def)
    show "mutex (RUnlock s2) = mutex s" by (rule m)
    show "rec_objs (RUnlock s2) = rec_objs s" using p by (simp add: RUnlock_def)
    show "length (map_objs (RUnlock s2)) = Suc (length (map_objs s))" using p by (simp add: RUnlock_def)
    show "map_entries (RUnlock s2) (plugins (RUnlock s2)) = map_entries s (plugins s)"
      using p by (simp add: RUnlock_def)
    show "map_entries (RUnlock s2) (length (map_objs s)) = map_entries s (plugins s)"
      if "distinct (map fst (map_entries s (plugins s)))"
      using c[OF that] by (simp add: RUnlock_def)
  qed
qed

lemma map_set_fields [simp]:
  "plugins (map_set m k v s) = plugins s" "mutex (map_set m k v s) = mutex s"
  "rec_objs (map_set m k v s) = rec_objs s"
  "plugins (map_delete m k s) = plugins s" "mutex (map_delete m k s) = mutex s"
  "rec_objs (map_delete m k s) = rec_objs s"
  by (simp_all add: map_set_def map_delete_def)

lemma map_set_other:
  "m \<noteq> p \<Longrightarrow> map_entries (map_set m k v s) p = map_entries s p"
  by (simp add: map_set_def map_entries_def)

lemma map_delete_other:
  "m \<noteq> p \<Longrightarrow> map_entries (map_delete m k s) p = map_entries s p"
  by (simp add: map_delete_def map_entries_def)

section \<open>Well-formedness is kept by every operation\<close>

text \<open>
  A new loader is well formed, and every operation leaves a well-formed state well formed,
  however it ends: the states the theorems below assume are the ones a program reaches.
\<close>

lemma wf_NewPluginLoader: "wf NewPluginLoader"
  by (simp add: wf_def NewPluginLoader_def map_entries_def)

lemma wf_mutex [simp]: "wf (s\<lparr>mutex := m\<rparr>) = wf s"
  by (simp add: wf_def)

lemma wf_info_objs [simp]: "wf (s\<lparr>info_objs := h\<rparr>) = wf s"
  by (simp add: wf_def)

lemma with_Lock_wf:
  assumes "\<And>s1 r s2. wf s1 \<Longrightarrow> body s1 = (r, s2) \<Longrightarrow> wf s2" and "wf s"
  shows "wf (snd (with_Lock body s))"
proof (cases "Lock s")
  case None
  then show ?thesis using assms(2) by (simp add: with_Lock_def)
next
  case (Some s1)
  obtain r s2 where b: "body s1 = (r, s2)" by (cases "body s1")
  from Some assms(2) have "wf s1"
    by (auto simp: Lock_def split: if_splits)
  from assms(1)[OF this b] have "wf s2" .
  then show ?thesis using Some b by (simp add: with_Lock_def Unlock_def)
qed

lemma with_RLock_wf:
  assumes "\<And>s1 r s2. wf s1 \<Longrightarrow> body s1 = (r, s2) \<Longrightarrow> wf s2" and "wf s"
  shows "wf (snd (with_RLock body s))"
proof (cases "RLock s")
  case None
  then show ?thesis using assms(2) by (simp add: with_RLock_def)
next
  case (Some s1)
  obtain r s2 where b: "body s1 = (r, s2)" by (cases "body s1")
  from Some assms(2) have "wf s1"
    by (auto simp: RLock_def split: if_splits)
  from assms(1)[OF this b] have "wf s2" .
  then show ?thesis using Some b by (simp add: with_RLock_def RUnlock_def)
qed

lemma wf_insert:
  assumes "wf s" and "map_get s (plugins s) channelID = None"
  shows "wf (map_set (plugins s) channelID (length (rec_objs s)) (s\<lparr>rec_objs := rec_objs s @ [r]\<rparr>))"
proof -
  from assms(1) have v: "plugins s < length (map_objs s)"
    and d: "distinct (map fst (map_entries s (plugins s)))"
    and p: "list_all (\<lambda>(k, a). a < length (rec_objs s)) (map_entries s (plugins s))"
    by (simp_all add: wf_def)
  from assms(2) have n: "channelID \<notin> fst ` set (map_entries s (plugins s))"
    by (simp add: map_get_def map_of_eq_None_iff)
  let ?s' = "map_set (plugins s) channelID (length (rec_objs s)) (s\<lparr>rec_objs := rec_objs s @ [r]\<rparr>)"
  have e: "map_entries ?s' (plugins ?s') = map_entries s (plugins s) @ [(channelID, length (rec_objs s))]"
    using v n by (simp add: map_set_def map_entries_def update_absent)
  show ?thesis
    unfolding wf_def e using v d p n
    by (auto simp: map_set_def list_all_iff)
qed

lemma LoadPlugin_body_wf:
  "wf s \<Longrightarrow> LoadPlugin_body fs env now pluginPath channelID s = (r, s') \<Longrightarrow> wf s'"
proof -
  assume w: "wf s" and b: "LoadPlugin_body fs env now pluginPath channelID s = (r, s')"
  have i: "wf (map_set (plugins s) channelID (length (rec_objs s))
      (s\<lparr>info_objs := h, rec_objs := rec_objs s @ [x]\<rparr>))"
    if "map_get s (plugins s) channelID = None" for h x
    using wf_insert[of "s\<lparr>info_objs := h\<rparr>" channelID x] w that by simp
  have p: "wf (s\<lparr>info_objs := h, rec_objs := rec_objs s @ [x]\<rparr>)" for h x
    using w by (auto simp: wf_def list_all_iff)
  from w b show ?thesis
    by (auto simp: LoadPlugin_body_def new_rec_def i p
        split: if_splits sum.splits Symbol.splits call.splits option.splits prod.splits)
qed

lemma LoadPlugin_wf: "wf s \<Longrightarrow> wf (snd (LoadPlugin fs env now pluginPath channelID s))"
  unfolding LoadPlugin_def by (rule with_Lock_wf) (auto dest: LoadPlugin_body_wf)

lemma wf_delete: "wf s \<Longrightarrow> wf (map_delete (plugins s) channelID s)"
  by (auto simp: wf_def map_delete_def map_entries_def list_all_iff AList.delete_eq
      distinct_map_filter)

lemma UnloadPlugin_wf: "wf s \<Longrightarrow> wf (snd (UnloadPlugin channelID s))"
  unfolding UnloadPlugin_def
  by (rule with_Lock_wf) (auto simp: UnloadPlugin_body_def wf_delete split: option.splits)

lemma ReloadPlugin_body_wf:
  assumes "wf s" and "ReloadPlugin_body fs env now channelID s = (r, s')"
  shows "wf s'"
proof (cases "map_get s (plugins s) channelID")
  case None
  with assms show ?thesis by (simp add: ReloadPlugin_body_def)
next
  case (Some p)
  let ?s1 = "map_delete (plugins s) channelID s"
  have w: "wf ?s1" using assms(1) by (rule wf_delete)
  show ?thesis
  proof (cases "deref ?s1 p")
    case None
    with Some assms(2) w show ?thesis by (auto simp: ReloadPlugin_body_def Let_def)
  next
    case (Some y)
    with \<open>map_get s (plugins s) channelID = Some p\<close> assms(2)
    have "LoadPlugin fs env now (Path y) channelID ?s1 = (r, s')"
      by (simp add: ReloadPlugin_body_def Let_def)
    with LoadPlugin_wf[OF w, of fs env now "Path y" channelID] show ?thesis by simp
  qed
qed

lemma ReloadPlugin_wf: "wf s \<Longrightarrow> wf (snd (ReloadPlugin fs env now channelID s))"
  unfolding ReloadPlugin_def by (rule with_Lock_wf) (auto dest: ReloadPlugin_body_wf)

lemma GetPlugin_wf: "wf s \<Longrightarrow> wf (snd (GetPlugin now channelID s))"
  unfolding GetPlugin_def
  by (rule with_RLock_wf)
     (auto simp: GetPlugin_body_def rec_update_def wf_def split: option.splits)

lemma ListPlugins_body_wf:
  assumes "wf s" and "ListPlugins_body s = (r, s')"
  shows "wf s'"
proof -
  from assms(1) have v: "plugins s < length (map_objs s)" by (simp add: wf_def)
  note q = ListPlugins_body_props[OF v assms(2)]
  from q(2,5) v have "plugins s' < length (map_objs s')" by simp
  with q(2,4,6) assms(1) show ?thesis by (simp add: wf_def)
qed

lemma ListPlugins_wf: "wf s \<Longrightarrow> wf (snd (ListPlugins s))"
  unfolding ListPlugins_def by (rule with_RLock_wf) (auto dest: ListPlugins_body_wf)

lemma GetPluginInfo_wf: "wf s \<Longrightarrow> wf (snd (GetPluginInfo env channelID s))"
  by (subst GetPluginInfo_state) simp

lemma HealthCheck_wf: "wf s \<Longrightarrow> wf (snd (HealthCheck env s))"
  by (subst HealthCheck_state) simp

lemma wf_entry: "wf s \<Longrightarrow> map_get s (plugins s) c = Some a \<Longrightarrow> a < length (rec_objs s)"
  by (auto simp: wf_def map_get_def list_all_iff dest!: map_of_SomeD)

text \<open>
  What a successful \<^verbatim>\<open>LoadPlugin\<close> does: the channel gets a new record with the path,
  the instance, the pointer to the metadata just validated, \<^verbatim>\<open>LoadedAt\<close> the time of
  the call and the usage fields at zero; the other channels keep their records.
\<close>

lemma LoadPlugin_success:
  assumes "mutex s = unlocked" and "wf s" and "map_get s (plugins s) channelID = None"
    and "fs pluginPath (info_objs s) = (Inr p, h0)"
    and "Lookup p ''NewPlugin'' = Inr (NewPluginFn newPlugin)"
    and "newPlugin h0 = (Return inst, h1)"
    and "GetInfo env inst h1 = (Return info, h2)"
    and "read_info h2 info = Return pointee" and "validatePluginInfo pointee = None"
  shows "\<exists>s'. LoadPlugin fs env now pluginPath channelID s = (Returns None, s') \<and>
     mutex s' = unlocked \<and> info_objs s' = h2 \<and>
     registered s' channelID = Some \<lparr>Path = pluginPath, Plugin = p, Instance = inst,
       Info = info, LoadedAt = now, LastUsed = 0, UsageCount = 0\<rparr> \<and>
     (\<forall>c. c \<noteq> channelID \<longrightarrow> registered s' c = registered s c)"
proof -
  let ?s1 = "s\<lparr>mutex := \<lparr>writer = True, readers = 0\<rparr>\<rparr>"
  let ?r = "\<lparr>Path = pluginPath, Plugin = p, Instance = inst,
       Info = info, LoadedAt = now, LastUsed = 0, UsageCount = 0\<rparr>"
  let ?s2 = "map_set (plugins s) channelID (length (rec_objs s))
       (?s1\<lparr>info_objs := h2, rec_objs := rec_objs s @ [?r]\<rparr>)"
  from assms(2) have v: "plugins s < length (map_objs s)" by (simp add: wf_def)
  have l: "Lock s = Some ?s1"
    using assms(1) by (rule Lock_unlocked)
  have b: "LoadPlugin_body fs env now pluginPath channelID ?s1 = (Returns None, ?s2)"
    using assms(3-9) v by (simp add: LoadPlugin_body_def new_rec_def)
  have 1: "LoadPlugin fs env now pluginPath channelID s = (Returns None, Unlock ?s2)"
    using l b by (simp add: LoadPlugin_def with_Lock_def)
  have 2: "mutex (Unlock ?s2) = unlocked" "info_objs (Unlock ?s2) = h2"
    by (simp_all add: Unlock_def unlocked_def map_set_def)
  have 3: "registered (Unlock ?s2) channelID = Some ?r"
    using v by (simp add: Unlock_def registered_def map_get_def map_entries_def map_set_def
        deref_def AList.update_conv')
  have 4: "registered (Unlock ?s2) c = registered s c" if "c \<noteq> channelID" for c
  proof (cases "map_get s (plugins s) c")
    case None
    with that v show ?thesis
      by (simp add: Unlock_def registered_def map_get_def map_entries_def map_set_def
        AList.update_conv')
  next
    case (Some a)
    with assms(2) have "a < length (rec_objs s)" by (rule wf_entry)
    with Some that v show ?thesis
      by (simp add: Unlock_def registered_def map_get_def map_entries_def map_set_def
        deref_def AList.update_conv' nth_append)
  qed
  from 1 2 3 4 show ?thesis by blast
qed

section \<open>The health check\<close>

lemma health_loop_mutex [simp]:
  "health_loop env (s\<lparr>mutex := m\<rparr>) es acc h = health_loop env s es acc h"
  by (induction env s es acc h rule: health_loop.induct)
     (auto split: option.splits call.splits prod.splits)

lemma sweep_mem_mutex [simp]: "sweep_mem env (s\<lparr>mutex := m\<rparr>) es h = sweep_mem env s es h"
  by (induction env s es h rule: sweep_mem.induct) (auto split: option.splits)

text \<open>
  The loop when no call panics: it ends with a map and with the plugin memory that the
  calls have left, and the flag of a channel is the outcome of the call made for it.
\<close>

lemma health_loop_Return:
  assumes "distinct (map fst es)"
    and "\<forall>(c, a) \<in> set es. a < length (rec_objs s) \<and>
            fst (GetInfo env (Instance (rec_objs s ! a))
                   (sweep_mem env s (takeWhile (\<lambda>e. fst e \<noteq> c) es) h)) \<noteq> Panic"
  shows "\<exists>health. health_loop env s es acc h = (Return health, sweep_mem env s es h) \<and>
     (\<forall>c. map_of health c =
        (case map_of es c of
           None \<Rightarrow> map_of acc c
         | Some a \<Rightarrow> Some (fst (GetInfo env (Instance (rec_objs s ! a))
                              (sweep_mem env s (takeWhile (\<lambda>e. fst e \<noteq> c) es) h)) \<noteq> Return None)))"
  using assms
proof (induction es arbitrary: acc h)
  case Nil
  then show ?case by simp
next
  case (Cons e rest)
  obtain k a where e: "e = (k, a)" by (cases e)
  from Cons.prems e have a: "a < length (rec_objs s)"
    and np: "fst (GetInfo env (Instance (rec_objs s ! a)) h) \<noteq> Panic"
    and k: "k \<notin> fst ` set rest" and d: "distinct (map fst rest)"
    by auto
  from np obtain info h1 where i: "GetInfo env (Instance (rec_objs s ! a)) h = (Return info, h1)"
    by (cases "GetInfo env (Instance (rec_objs s ! a)) h";
        cases "fst (GetInfo env (Instance (rec_objs s ! a)) h)") auto
  have tw: "sweep_mem env s (takeWhile (\<lambda>e. fst e \<noteq> c) (e # rest)) h =
      sweep_mem env s (takeWhile (\<lambda>e. fst e \<noteq> c) rest) h1" if "c \<noteq> k" for c
    using that e a i by (simp add: deref_def)
  have r: "\<forall>(c, b) \<in> set rest. b < length (rec_objs s) \<and>
            fst (GetInfo env (Instance (rec_objs s ! b))
                   (sweep_mem env s (takeWhile (\<lambda>e. fst e \<noteq> c) rest) h1)) \<noteq> Panic"
  proof (clarify, intro conjI)
    fix c b assume m: "(c, b) \<in> set rest"
    with k have ck: "c \<noteq> k" by force
    from m Cons.prems(2) show "b < length (rec_objs s)" by auto
    from m Cons.prems(2)
    have "fst (GetInfo env (Instance (rec_objs s ! b))
                   (sweep_mem env s (takeWhile (\<lambda>e. fst e \<noteq> c) (e # rest)) h)) \<noteq> Panic"
      by auto
    then show "fst (GetInfo env (Instance (rec_objs s ! b))
                   (sweep_mem env s (takeWhile (\<lambda>e. fst e \<noteq> c) rest) h1)) \<noteq> Panic"
      unfolding tw[OF ck] .
  qed
  from Cons.IH[OF d r, of "AList.update k (info \<noteq> None) acc"]
  obtain health where hl: "health_loop env s rest (AList.update k (info \<noteq> None) acc) h1 =
       (Return health, sweep_mem env s rest h1)"
    and hc: "\<And>c. map_of health c =
        (case map_of rest c of
           None \<Rightarrow> map_of (AList.update k (info \<noteq> None) acc) c
         | Some a \<Rightarrow> Some (fst (GetInfo env (Instance (rec_objs s ! a))
                              (sweep_mem env s (takeWhile (\<lambda>e. fst e \<noteq> c) rest) h1)) \<noteq> Return None))"
    by blast
  have kn: "map_of rest k = None"
    using k by (simp add: map_of_eq_None_iff)
  have 1: "health_loop env s (e # rest) acc h = (Return health, sweep_mem env s (e # rest) h)"
    using e a i hl by (simp add: deref_def)
  have 2: "map_of health c =
        (case map_of (e # rest) c of
           None \<Rightarrow> map_of acc c
         | Some a \<Rightarrow> Some (fst (GetInfo env (Instance (rec_objs s ! a))
                              (sweep_mem env s (takeWhile (\<lambda>e. fst e \<noteq> c) (e # rest)) h)) \<noteq> Return None))" for c
  proof (cases "c = k")
    case True
    then show ?thesis
      using hc[of k] e i kn by (simp add: AList.update_conv')
  next
    case False
    then show ?thesis
      using hc[of c] e a i by (auto simp: AList.update_conv' deref_def split: option.splits)
  qed
  from 1 2 show ?case by blast
qed

text \<open>The loop when a call panics: it ends with the panic.\<close>

lemma health_loop_Panic:
  assumes "(c, a) \<in> set es" and "deref s a = Some r"
    and "\<forall>h. fst (GetInfo env (Instance r) h) = Panic"
  shows "fst (health_loop env s es acc h) = Panic"
  using assms(1)
proof (induction es arbitrary: acc h)
  case Nil
  then show ?case by simp
next
  case (Cons e rest)
  obtain k b where e: "e = (k, b)" by (cases e)
  show ?case
  proof (cases "e = (c, a)")
    case True
    obtain x h1 where g: "GetInfo env (Instance r) h = (x, h1)"
      by (cases "GetInfo env (Instance r) h")
    with assms(3) have "x = Panic" by (metis fst_conv)
    with True g assms(2) show ?thesis by simp
  next
    case False
    with Cons.prems have "(c, a) \<in> set rest" by auto
    from Cons.IH[OF this] e show ?thesis
      by (auto split: option.splits call.splits prod.splits)
  qed
qed

text \<open>
  A panic of \<^verbatim>\<open>GetInfo\<close> on the instance of a registered channel is not recovered:
  \<^verbatim>\<open>HealthCheck\<close> panics, whatever the other channels do.
\<close>

lemma HealthCheck_panic_general:
  assumes "\<not> writer (mutex s)" and "registered s c = Some r"
    and "\<forall>h. fst (GetInfo env (Instance r) h) = Panic"
  shows "fst (HealthCheck env s) = Panics"
proof -
  let ?s1 = "s\<lparr>mutex := (mutex s)\<lparr>readers := Suc (readers (mutex s))\<rparr>\<rparr>"
  from assms(2) obtain a where a: "map_get s (plugins s) c = Some a" "deref s a = Some r"
    by (auto dest: registered_SomeD)
  from a(1) have m: "(c, a) \<in> set (map_entries s (plugins s))"
    by (auto simp: map_get_def dest: map_of_SomeD)
  have rl: "RLock s = Some ?s1"
    using assms(1) by (simp add: RLock_def)
  obtain x h1 where hl: "health_loop env s (map_entries s (plugins s)) [] (info_objs s) = (x, h1)"
    by (cases "health_loop env s (map_entries s (plugins s)) [] (info_objs s)")
  with health_loop_Panic[OF m a(2) assms(3), of "[]" "info_objs s"] have "x = Panic" by simp
  with hl have "HealthCheck_body env ?s1 = (Panics, ?s1\<lparr>info_objs := h1\<rparr>)"
    by (simp add: HealthCheck_body_def)
  with rl have "HealthCheck env s = (Panics, s\<lparr>info_objs := h1\<rparr>)"
    unfolding HealthCheck_def by (intro with_RLock_info_objs) auto
  then show ?thesis by simp
qed

text \<open>
  C7, as the code has it. In a well-formed state with no writer holding the mutex, and
  when none of the \<^verbatim>\<open>GetInfo\<close> calls of the sweep panics, \<^verbatim>\<open>HealthCheck\<close> returns
  a map; in the state only the plugin memory may differ, by what the \<^verbatim>\<open>GetInfo\<close> calls
  wrote. The map has an entry exactly for the registered channels, and the entry of a
  channel is true if the \<^verbatim>\<open>GetInfo\<close> call on that channel's own instance, made in the
  plugin memory that the calls for the channels before it have left, returns a non-nil
  pointer, and false if it returns nil: a nil result for one channel has no effect on the
  entry of another.
\<close>

theorem HealthCheck_flags:
  assumes "wf s" and "\<not> writer (mutex s)"
    and "\<forall>c r. registered s c = Some r \<longrightarrow>
           fst (GetInfo env (Instance r)
                  (sweep_mem env s (takeWhile (\<lambda>e. fst e \<noteq> c) (map_entries s (plugins s)))
                     (info_objs s))) \<noteq> Panic"
  shows "\<exists>health. HealthCheck env s =
       (Returns health,
        s\<lparr>info_objs := sweep_mem env s (map_entries s (plugins s)) (info_objs s)\<rparr>) \<and>
     (\<forall>c. map_of health c =
        (case registered s c of
           None \<Rightarrow> None
         | Some r \<Rightarrow>
             Some (fst (GetInfo env (Instance r)
                      (sweep_mem env s (takeWhile (\<lambda>e. fst e \<noteq> c) (map_entries s (plugins s)))
                         (info_objs s))) \<noteq> Return None)))"
proof -
  let ?es = "map_entries s (plugins s)"
  let ?s1 = "s\<lparr>mutex := (mutex s)\<lparr>readers := Suc (readers (mutex s))\<rparr>\<rparr>"
  have rl: "RLock s = Some ?s1"
    using assms(2) by (simp add: RLock_def)
  have d: "distinct (map fst ?es)"
    using assms(1) by (simp add: wf_def)
  have la: "\<forall>(c, a) \<in> set ?es. a < length (rec_objs s) \<and>
       fst (GetInfo env (Instance (rec_objs s ! a))
              (sweep_mem env s (takeWhile (\<lambda>e. fst e \<noteq> c) ?es) (info_objs s))) \<noteq> Panic"
  proof (clarify, intro conjI)
    fix c a assume m: "(c, a) \<in> set ?es"
    with d have g: "map_get s (plugins s) c = Some a"
      by (simp add: map_get_def)
    with assms(1) show v: "a < length (rec_objs s)"
      by (auto dest: wf_entry)
    with g have "registered s c = Some (rec_objs s ! a)"
      by (simp add: registered_def deref_def)
    with assms(3) show "fst (GetInfo env (Instance (rec_objs s ! a))
              (sweep_mem env s (takeWhile (\<lambda>e. fst e \<noteq> c) ?es) (info_objs s))) \<noteq> Panic"
      by blast
  qed
  from health_loop_Return[OF d la, of "[]"] obtain health
    where hl: "health_loop env s ?es [] (info_objs s) = (Return health, sweep_mem env s ?es (info_objs s))"
      and hc: "\<And>c. map_of health c =
        (case map_of ?es c of
           None \<Rightarrow> map_of [] c
         | Some a \<Rightarrow> Some (fst (GetInfo env (Instance (rec_objs s ! a))
                              (sweep_mem env s (takeWhile (\<lambda>e. fst e \<noteq> c) ?es) (info_objs s))) \<noteq> Return None))"
    by blast
  have "HealthCheck_body env ?s1 =
      (Returns health, ?s1\<lparr>info_objs := sweep_mem env s ?es (info_objs s)\<rparr>)"
    using hl by (simp add: HealthCheck_body_def)
  then have 1: "HealthCheck env s =
      (Returns health, s\<lparr>info_objs := sweep_mem env s ?es (info_objs s)\<rparr>)"
    unfolding HealthCheck_def by (intro with_RLock_info_objs[OF rl]) auto
  have 2: "map_of health c =
        (case registered s c of
           None \<Rightarrow> None
         | Some r \<Rightarrow>
             Some (fst (GetInfo env (Instance r)
                      (sweep_mem env s (takeWhile (\<lambda>e. fst e \<noteq> c) ?es) (info_objs s))) \<noteq> Return None))" for c
  proof (cases "map_get s (plugins s) c")
    case None
    then show ?thesis using hc[of c] by (simp add: registered_def map_get_def)
  next
    case (Some a)
    with assms(1) have "a < length (rec_objs s)" by (rule wf_entry)
    with Some show ?thesis using hc[of c] by (simp add: registered_def map_get_def deref_def)
  qed
  from 1 2 show ?thesis by blast
qed

lemma wf_two_loaded: "wf two_loaded"
  by (simp add: wf_def heap_defs test_defs)

theorem HealthCheck_flags_witness:
  "wf two_loaded \<and> \<not> writer (mutex two_loaded) \<and>
   registered two_loaded ''test'' = Some test_rec \<and>
   registered two_loaded ''other'' = Some other_rec \<and>
   GetInfo (\<lambda>i h. (if i = 1 then Return None else Return (Some i), h)) (Instance test_rec)
     (info_objs two_loaded) = (Return (Some 0), info_objs two_loaded) \<and>
   GetInfo (\<lambda>i h. (if i = 1 then Return None else Return (Some i), h)) (Instance other_rec)
     (info_objs two_loaded) = (Return None, info_objs two_loaded) \<and>
   HealthCheck (\<lambda>i h. (if i = 1 then Return None else Return (Some i), h)) two_loaded =
     (Returns [(''test'', True), (''other'', False)], two_loaded)"
proof -
  let ?env = "\<lambda>(i::nat) (h::plugin_mem). (if i = 1 then Return None else Return (Some i), h)"
  have 1: "wf two_loaded"
    by (rule wf_two_loaded)
  have 2: "\<not> writer (mutex two_loaded)"
    by (simp add: test_defs unlocked_def)
  have 3: "\<forall>c r. registered two_loaded c = Some r \<longrightarrow>
      fst (GetInfo ?env (Instance r)
             (sweep_mem ?env two_loaded
                (takeWhile (\<lambda>e. fst e \<noteq> c) (map_entries two_loaded (plugins two_loaded)))
                (info_objs two_loaded))) \<noteq> Panic"
    by (simp add: heap_defs test_defs GetInfo_def)
  have 4: "HealthCheck ?env two_loaded = (Returns [(''test'', True), (''other'', False)], two_loaded)"
    by (simp add: op_defs lock_defs heap_defs test_defs)
  have 5: "registered two_loaded ''test'' = Some test_rec"
    "registered two_loaded ''other'' = Some other_rec"
    by (simp_all add: heap_defs test_defs)
  have 6: "GetInfo ?env (Instance test_rec) (info_objs two_loaded) =
      (Return (Some 0), info_objs two_loaded)"
    "GetInfo ?env (Instance other_rec) (info_objs two_loaded) = (Return None, info_objs two_loaded)"
    by (simp_all add: GetInfo_def test_defs)
  from HealthCheck_flags [OF 1 2 3] obtain health
    where h: "HealthCheck ?env two_loaded =
      (Returns health,
       two_loaded\<lparr>info_objs := sweep_mem ?env two_loaded
          (map_entries two_loaded (plugins two_loaded)) (info_objs two_loaded)\<rparr>)"
    by blast
  from h 1 2 4 5 6 show ?thesis by simp
qed

text \<open>
  C7 as stated fails when \<^verbatim>\<open>GetInfo\<close> fails by panicking: with two registered channels
  and the second one's \<^verbatim>\<open>GetInfo\<close> panicking, \<^verbatim>\<open>HealthCheck\<close> panics as a whole. It
  returns no map, so it reports neither false for that channel nor true for the other.
\<close>

theorem HealthCheck_panic_aborts:
  "registered two_loaded ''test'' = Some test_rec \<and>
   registered two_loaded ''other'' = Some other_rec \<and>
   GetInfo broken_env (Instance test_rec) (info_objs two_loaded) =
     (Return (Some 0), info_objs two_loaded) \<and>
   GetInfo broken_env (Instance other_rec) (info_objs two_loaded) =
     (Panic, info_objs two_loaded) \<and>
   HealthCheck broken_env two_loaded = (Panics, two_loaded)"
  by (simp add: op_defs lock_defs heap_defs test_defs)

section \<open>The snapshot of \<^verbatim>\<open>ListPlugins\<close>\<close>

text \<open>
  C8, as the code has it. In a well-formed state with no writer holding the mutex,
  \<^verbatim>\<open>ListPlugins\<close> returns a new map object, different from the loader's own map, with
  the same keys and the same record pointers, and the registry is as before. Whatever
  entry the caller then adds to the returned map or replaces in it (\<open>map_set\<close>) or
  removes from it (\<open>map_delete\<close>), the loader's map and the registry stay as they are.
\<close>

theorem ListPlugins_fresh_map:
  assumes "wf s" and "\<not> writer (mutex s)"
  shows "\<exists>m s'. ListPlugins s = (Returns m, s') \<and> m \<noteq> plugins s' \<and>
     map_entries s' m = map_entries s (plugins s) \<and>
     map_entries s' (plugins s') = map_entries s (plugins s) \<and>
     registered s' = registered s \<and>
     (\<forall>k v. map_entries (map_set m k v s') (plugins s') = map_entries s' (plugins s') \<and>
            registered (map_set m k v s') = registered s') \<and>
     (\<forall>k. map_entries (map_delete m k s') (plugins s') = map_entries s' (plugins s') \<and>
          registered (map_delete m k s') = registered s')"
proof -
  from assms(1) have v: "plugins s < length (map_objs s)"
    and d: "distinct (map fst (map_entries s (plugins s)))"
    by (simp_all add: wf_def)
  from ListPlugins_result[OF v assms(2)] obtain s'
    where l: "ListPlugins s = (Returns (length (map_objs s)), s')"
      and p: "plugins s' = plugins s" "rec_objs s' = rec_objs s"
        "map_entries s' (plugins s') = map_entries s (plugins s)"
      and c: "map_entries s' (length (map_objs s)) = map_entries s (plugins s)"
    using d by blast
  let ?m = "length (map_objs s)"
  have ne: "?m \<noteq> plugins s'"
    using v p(1) by simp
  have r: "registered s' = registered s"
    using p by (rule registered_cong)
  have set: "map_entries (map_set ?m k x s') (plugins s') = map_entries s' (plugins s') \<and>
            registered (map_set ?m k x s') = registered s'" for k x
    using ne by (auto intro!: registered_cong simp: map_set_other)
  have del: "map_entries (map_delete ?m k s') (plugins s') = map_entries s' (plugins s') \<and>
          registered (map_delete ?m k s') = registered s'" for k
    using ne by (auto intro!: registered_cong simp: map_delete_other)
  from l ne c p(3) r set del show ?thesis by blast
qed

theorem ListPlugins_fresh_map_witness:
  "wf one_loaded \<and> \<not> writer (mutex one_loaded) \<and>
   ListPlugins one_loaded =
     (Returns 1, one_loaded\<lparr>map_objs := [[(''test'', 0)], [(''test'', 0)]]\<rparr>) \<and>
   registered (map_set 1 ''other'' 0 (snd (ListPlugins one_loaded))) = registered one_loaded \<and>
   registered (map_delete 1 ''test'' (snd (ListPlugins one_loaded))) = registered one_loaded"
proof -
  have 1: "wf one_loaded"
    by (simp add: wf_def heap_defs test_defs)
  have 2: "\<not> writer (mutex one_loaded)"
    by (simp add: test_defs unlocked_def)
  have 3: "ListPlugins one_loaded =
     (Returns 1, one_loaded\<lparr>map_objs := [[(''test'', 0)], [(''test'', 0)]]\<rparr>)"
    by (simp add: op_defs lock_defs heap_defs one_loaded_def)
  from ListPlugins_fresh_map [OF 1 2] 3
  have "registered (snd (ListPlugins one_loaded)) = registered one_loaded"
    and "\<forall>k v. registered (map_set 1 k v (snd (ListPlugins one_loaded))) =
           registered (snd (ListPlugins one_loaded))"
    and "\<forall>k. registered (map_delete 1 k (snd (ListPlugins one_loaded))) =
           registered (snd (ListPlugins one_loaded))"
    by auto
  with 1 2 3 show ?thesis by simp
qed

text \<open>
  C8 as stated fails for the records: the returned map holds the registry's own
  \<^verbatim>\<open>*LoadedPlugin\<close> pointers. A caller that writes a field through the pointer found in
  the snapshot changes the record the registry has for that channel.
\<close>

theorem ListPlugins_shares_records:
  "ListPlugins one_loaded = (Returns 1, one_loaded\<lparr>map_objs := [[(''test'', 0)], [(''test'', 0)]]\<rparr>) \<and>
   map_get (snd (ListPlugins one_loaded)) 1 ''test'' = Some 0 \<and>
   registered (snd (ListPlugins one_loaded)) ''test'' = Some test_rec \<and>
   registered (rec_update 0 (\<lambda>r. r\<lparr>UsageCount := 99\<rparr>) (snd (ListPlugins one_loaded))) ''test'' =
     Some (test_rec\<lparr>UsageCount := 99\<rparr>) \<and>
   UsageCount test_rec = 0"
  by (simp add: op_defs lock_defs heap_defs one_loaded_def) (simp add: test_rec_def)

section \<open>Which operations change a record\<close>

lemma ListPlugins_frame:
  assumes "plugins s < length (map_objs s)"
  shows "plugins (snd (ListPlugins s)) = plugins s \<and> mutex (snd (ListPlugins s)) = mutex s \<and>
     rec_objs (snd (ListPlugins s)) = rec_objs s \<and>
     map_entries (snd (ListPlugins s)) (plugins s) = map_entries s (plugins s) \<and>
     registered (snd (ListPlugins s)) = registered s"
proof (cases "writer (mutex s)")
  case True
  then have "ListPlugins s = (Blocks, s)"
    by (simp add: ListPlugins_def with_RLock_def RLock_def)
  then show ?thesis by simp
next
  case False
  from ListPlugins_result[OF assms False] obtain s'
    where "ListPlugins s = (Returns (length (map_objs s)), s')"
      and "plugins s' = plugins s" "mutex s' = mutex s" "rec_objs s' = rec_objs s"
        "map_entries s' (plugins s') = map_entries s (plugins s)"
    by blast
  then show ?thesis by (auto intro: registered_cong)
qed

lemma with_Lock_keeps:
  assumes "\<And>s1 r s2 a x. body s1 = (r, s2) \<Longrightarrow> deref s1 a = Some x \<Longrightarrow> deref s2 a = Some x"
    and "deref s a = Some x"
  shows "deref (snd (with_Lock body s)) a = Some x"
proof (cases "Lock s")
  case None
  then show ?thesis using assms(2) by (simp add: with_Lock_def)
next
  case (Some s1)
  obtain r s2 where b: "body s1 = (r, s2)" by (cases "body s1")
  from Some assms(2) have "deref s1 a = Some x"
    by (auto simp: Lock_def split: if_splits)
  with assms(1)[OF b] have "deref s2 a = Some x" .
  then show ?thesis using Some b by (simp add: with_Lock_def Unlock_def)
qed

lemma LoadPlugin_body_keeps:
  "LoadPlugin_body fs env now pluginPath channelID s = (r, s') \<Longrightarrow> deref s a = Some x \<Longrightarrow>
   deref s' a = Some x"
  by (auto simp: LoadPlugin_body_def new_rec_def map_set_def deref_def nth_append
      split: if_splits sum.splits Symbol.splits call.splits option.splits prod.splits)

text \<open>\<^verbatim>\<open>ListPlugins\<close> runs no plugin code: the plugin memory is as before.\<close>

lemma copy_entries_info_objs: "info_objs (copy_entries es m s) = info_objs s"
  by (induction es m s rule: copy_entries.induct) (auto simp: map_set_def)

lemma ListPlugins_info_objs: "info_objs (snd (ListPlugins s)) = info_objs s"
  by (simp add: ListPlugins_def with_RLock_def RLock_def RUnlock_def ListPlugins_body_def
      make_map_def copy_entries_info_objs)

text \<open>
  \<^verbatim>\<open>GetPluginInfo\<close> and \<^verbatim>\<open>HealthCheck\<close> leave the registry as it was: the same
  channels with the same records.
\<close>

lemma GetPluginInfo_registered: "registered (snd (GetPluginInfo env channelID s)) = registered s"
  by (subst GetPluginInfo_state) simp

lemma HealthCheck_registered: "registered (snd (HealthCheck env s)) = registered s"
  by (subst HealthCheck_state) simp

lemma LoadPlugin_keeps:
  "deref s a = Some x \<Longrightarrow> deref (snd (LoadPlugin fs env now pluginPath channelID s)) a = Some x"
  unfolding LoadPlugin_def by (rule with_Lock_keeps) (auto dest: LoadPlugin_body_keeps)

lemma UnloadPlugin_keeps:
  "deref s a = Some x \<Longrightarrow> deref (snd (UnloadPlugin channelID s)) a = Some x"
  unfolding UnloadPlugin_def
  by (rule with_Lock_keeps) (auto simp: UnloadPlugin_body_def map_delete_def deref_def split: option.splits if_splits)

lemma ReloadPlugin_body_keeps:
  assumes "ReloadPlugin_body fs env now channelID s = (r, s')" and "deref s a = Some x"
  shows "deref s' a = Some x"
proof -
  have d: "deref (map_delete (plugins s) channelID s) a = Some x"
    using assms(2) by (auto simp: map_delete_def deref_def split: if_splits)
  show ?thesis
  proof (cases "map_get s (plugins s) channelID")
    case None
    then show ?thesis using assms by (simp add: ReloadPlugin_body_def)
  next
    case (Some p)
    show ?thesis
    proof (cases "deref (map_delete (plugins s) channelID s) p")
      case None
      with Some assms(1) d show ?thesis by (auto simp: ReloadPlugin_body_def Let_def)
    next
      case (Some y)
      with \<open>map_get s (plugins s) channelID = Some p\<close> assms(1)
      have "LoadPlugin fs env now (Path y) channelID (map_delete (plugins s) channelID s) = (r, s')"
        by (simp add: ReloadPlugin_body_def Let_def)
      with LoadPlugin_keeps[OF d, of fs env now "Path y" channelID] show ?thesis by simp
    qed
  qed
qed

lemma ReloadPlugin_keeps:
  "deref s a = Some x \<Longrightarrow> deref (snd (ReloadPlugin fs env now channelID s)) a = Some x"
  unfolding ReloadPlugin_def by (rule with_Lock_keeps) (auto dest: ReloadPlugin_body_keeps)

text \<open>
  C10, as the code has it. However they end, \<^verbatim>\<open>GetPluginInfo\<close> and \<^verbatim>\<open>HealthCheck\<close>
  leave the loader's map, the mutex and every \<^verbatim>\<open>LoadedPlugin\<close> record as they were,
  so the registry has the same channels with the same records, the \<^verbatim>\<open>Info\<close> pointer
  included; only the plugin memory may differ, by what the \<^verbatim>\<open>GetInfo\<close> calls wrote.
  \<^verbatim>\<open>ListPlugins\<close> leaves the plugin memory as it was and, on a loader whose map exists,
  the loader's map, the mutex and every record too (it only allocates the map it
  returns). And the operations that change the registry, \<^verbatim>\<open>LoadPlugin\<close>,
  \<^verbatim>\<open>UnloadPlugin\<close> and \<^verbatim>\<open>ReloadPlugin\<close>, leave every allocated record as it was: only
  \<^verbatim>\<open>GetPlugin\<close> writes to the fields of a record.
\<close>

theorem introspection_read_only:
  "plugins (snd (GetPluginInfo env channelID s)) = plugins s \<and>
   mutex (snd (GetPluginInfo env channelID s)) = mutex s \<and>
   map_objs (snd (GetPluginInfo env channelID s)) = map_objs s \<and>
   rec_objs (snd (GetPluginInfo env channelID s)) = rec_objs s \<and>
   registered (snd (GetPluginInfo env channelID s)) = registered s \<and>
   plugins (snd (HealthCheck env s)) = plugins s \<and>
   mutex (snd (HealthCheck env s)) = mutex s \<and>
   map_objs (snd (HealthCheck env s)) = map_objs s \<and>
   rec_objs (snd (HealthCheck env s)) = rec_objs s \<and>
   registered (snd (HealthCheck env s)) = registered s \<and>
   info_objs (snd (ListPlugins s)) = info_objs s \<and>
   (plugins s < length (map_objs s) \<longrightarrow>
      plugins (snd (ListPlugins s)) = plugins s \<and>
      mutex (snd (ListPlugins s)) = mutex s \<and>
      rec_objs (snd (ListPlugins s)) = rec_objs s \<and>
      map_entries (snd (ListPlugins s)) (plugins s) = map_entries s (plugins s) \<and>
      registered (snd (ListPlugins s)) = registered s) \<and>
   (deref s a = Some r \<longrightarrow>
      deref (snd (LoadPlugin fs env now pluginPath channelID s)) a = Some r \<and>
      deref (snd (UnloadPlugin channelID s)) a = Some r \<and>
      deref (snd (ReloadPlugin fs env now channelID s)) a = Some r)"
proof (intro conjI impI)
  show "plugins (snd (GetPluginInfo env channelID s)) = plugins s"
    by (subst GetPluginInfo_state) simp
  show "mutex (snd (GetPluginInfo env channelID s)) = mutex s"
    by (subst GetPluginInfo_state) simp
  show "map_objs (snd (GetPluginInfo env channelID s)) = map_objs s"
    by (subst GetPluginInfo_state) simp
  show "rec_objs (snd (GetPluginInfo env channelID s)) = rec_objs s"
    by (subst GetPluginInfo_state) simp
  show "registered (snd (GetPluginInfo env channelID s)) = registered s"
    by (rule GetPluginInfo_registered)
  show "plugins (snd (HealthCheck env s)) = plugins s"
    by (subst HealthCheck_state) simp
  show "mutex (snd (HealthCheck env s)) = mutex s"
    by (subst HealthCheck_state) simp
  show "map_objs (snd (HealthCheck env s)) = map_objs s"
    by (subst HealthCheck_state) simp
  show "rec_objs (snd (HealthCheck env s)) = rec_objs s"
    by (subst HealthCheck_state) simp
  show "registered (snd (HealthCheck env s)) = registered s"
    by (rule HealthCheck_registered)
  show "info_objs (snd (ListPlugins s)) = info_objs s"
    by (rule ListPlugins_info_objs)
next
  assume v: "plugins s < length (map_objs s)"
  note f = ListPlugins_frame[OF v]
  from f show "plugins (snd (ListPlugins s)) = plugins s" by blast
  from f show "mutex (snd (ListPlugins s)) = mutex s" by blast
  from f show "rec_objs (snd (ListPlugins s)) = rec_objs s" by blast
  from f show "map_entries (snd (ListPlugins s)) (plugins s) = map_entries s (plugins s)" by blast
  from f show "registered (snd (ListPlugins s)) = registered s" by blast
next
  assume d: "deref s a = Some r"
  from d show "deref (snd (LoadPlugin fs env now pluginPath channelID s)) a = Some r"
    by (rule LoadPlugin_keeps)
  from d show "deref (snd (UnloadPlugin channelID s)) a = Some r"
    by (rule UnloadPlugin_keeps)
  from d show "deref (snd (ReloadPlugin fs env now channelID s)) a = Some r"
    by (rule ReloadPlugin_keeps)
qed

theorem introspection_read_only_witness:
  "plugins two_loaded < length (map_objs two_loaded) \<and>
   deref two_loaded 0 = Some test_rec \<and>
   snd (GetPluginInfo test_env ''test'' two_loaded) = two_loaded \<and>
   snd (HealthCheck test_env two_loaded) = two_loaded \<and>
   rec_objs (snd (HealthCheck upgrading_env two_loaded)) = rec_objs two_loaded \<and>
   registered (snd (HealthCheck upgrading_env two_loaded)) = registered two_loaded \<and>
   rec_objs (snd (ListPlugins two_loaded)) = rec_objs two_loaded \<and>
   info_objs (snd (ListPlugins two_loaded)) = info_objs two_loaded \<and>
   registered (snd (ListPlugins two_loaded)) = registered two_loaded \<and>
   deref (snd (LoadPlugin test_fs test_env 300 ''test.so'' ''third'' two_loaded)) 0 = Some test_rec \<and>
   deref (snd (UnloadPlugin ''test'' two_loaded)) 0 = Some test_rec \<and>
   deref (snd (ReloadPlugin test_fs test_env 300 ''test'' two_loaded)) 0 = Some test_rec"
proof -
  have 1: "plugins two_loaded < length (map_objs two_loaded)"
    by (simp add: two_loaded_def)
  have 2: "deref two_loaded 0 = Some test_rec"
    by (simp add: two_loaded_def deref_def)
  note t = introspection_read_only
    [of test_env "''test''" two_loaded 0 test_rec test_fs 300 "''test.so''"]
  note u = introspection_read_only
    [of upgrading_env "''test''" two_loaded 0 test_rec test_fs 300 "''test.so''"]
  note v = introspection_read_only
    [of test_env "''third''" two_loaded 0 test_rec test_fs 300 "''test.so''"]
  have 3: "snd (GetPluginInfo test_env ''test'' two_loaded) = two_loaded"
    by (simp add: op_defs lock_defs heap_defs test_defs)
  have 4: "snd (HealthCheck test_env two_loaded) = two_loaded"
    by (simp add: op_defs lock_defs heap_defs test_defs)
  from u have 5: "rec_objs (snd (HealthCheck upgrading_env two_loaded)) = rec_objs two_loaded"
    "registered (snd (HealthCheck upgrading_env two_loaded)) = registered two_loaded"
    by blast+
  from t 1 have 6: "rec_objs (snd (ListPlugins two_loaded)) = rec_objs two_loaded"
    "info_objs (snd (ListPlugins two_loaded)) = info_objs two_loaded"
    "registered (snd (ListPlugins two_loaded)) = registered two_loaded"
    by blast+
  from v 2
  have 7: "deref (snd (LoadPlugin test_fs test_env 300 ''test.so'' ''third'' two_loaded)) 0 = Some test_rec"
    by blast
  from t 2 have 8: "deref (snd (UnloadPlugin ''test'' two_loaded)) 0 = Some test_rec"
    "deref (snd (ReloadPlugin test_fs test_env 300 ''test'' two_loaded)) 0 = Some test_rec"
    by blast+
  from 1 2 3 4 5 6 7 8 show ?thesis by simp
qed

text \<open>
  C10 as stated fails for the metadata: a record holds the plugin's own \<^verbatim>\<open>*PluginInfo\<close>,
  and \<^verbatim>\<open>HealthCheck\<close> and \<^verbatim>\<open>GetPluginInfo\<close> run the plugin's \<^verbatim>\<open>GetInfo\<close>. With a
  plugin whose \<^verbatim>\<open>GetInfo\<close> writes a new version into its struct, the record registered
  for the channel is the same after the call, but its metadata reads version 2.0.0 where it
  read 1.0.0 before.
\<close>

theorem introspection_changes_metadata:
  "registered two_loaded ''test'' = Some test_rec \<and>
   metadata two_loaded test_rec = Some validInfo \<and>
   Version validInfo = ''1.0.0'' \<and>
   registered (snd (HealthCheck upgrading_env two_loaded)) ''test'' = Some test_rec \<and>
   metadata (snd (HealthCheck upgrading_env two_loaded)) test_rec =
     Some (validInfo\<lparr>Version := ''2.0.0''\<rparr>) \<and>
   registered (snd (GetPluginInfo upgrading_env ''test'' two_loaded)) ''test'' = Some test_rec \<and>
   metadata (snd (GetPluginInfo upgrading_env ''test'' two_loaded)) test_rec =
     Some (validInfo\<lparr>Version := ''2.0.0''\<rparr>)"
  by (simp add: op_defs lock_defs heap_defs test_defs)

section \<open>Usage bookkeeping of \<^verbatim>\<open>GetPlugin\<close>\<close>

lemma sint_of_nat_small:
  "k < 2 ^ 63 \<Longrightarrow> sint (of_nat k :: 64 word) = int k"
  by (simp add: signed_of_nat signed_take_bit_int_eq_self)

lemma GetPlugin_registered:
  assumes "\<not> writer (mutex s)" and "map_get s (plugins s) channelID = Some a"
    and "deref s a = Some r"
  shows "GetPlugin now channelID s =
     (Returns (Inr (Instance r)),
      s\<lparr>rec_objs := (rec_objs s)[a := r\<lparr>LastUsed := now, UsageCount := UsageCount r + 1\<rparr>]\<rparr>)"
proof -
  let ?s1 = "s\<lparr>mutex := (mutex s)\<lparr>readers := Suc (readers (mutex s))\<rparr>\<rparr>"
  have rl: "RLock s = Some ?s1"
    using assms(1) by (simp add: RLock_def)
  from assms(3) have a: "a < length (rec_objs s)" "rec_objs s ! a = r"
    by (auto simp: deref_def split: if_splits)
  have "GetPlugin_body now channelID ?s1 =
     (Returns (Inr (Instance r)),
      ?s1\<lparr>rec_objs := (rec_objs s)[a := r\<lparr>LastUsed := now, UsageCount := UsageCount r + 1\<rparr>]\<rparr>)"
    using assms(2,3) a by (simp add: GetPlugin_body_def rec_update_def)
  then show ?thesis
    using rl by (cases s) (simp add: GetPlugin_def with_RLock_def RUnlock_def)
qed

lemma GetPlugin_calls_registered:
  assumes "\<not> writer (mutex s)" and "map_get s (plugins s) channelID = Some a"
    and "deref s a = Some r"
  shows "GetPlugin_calls ts channelID s =
     (replicate (length ts) (Returns (Inr (Instance r))),
      if ts = [] then s
      else s\<lparr>rec_objs := (rec_objs s)[a := r\<lparr>LastUsed := last ts,
               UsageCount := UsageCount r + of_nat (length ts)\<rparr>]\<rparr>)"
  using assms
proof (induction ts arbitrary: s r)
  case Nil
  then show ?case by simp
next
  case (Cons now ts)
  let ?r1 = "r\<lparr>LastUsed := now, UsageCount := UsageCount r + 1\<rparr>"
  let ?s1 = "s\<lparr>rec_objs := (rec_objs s)[a := ?r1]\<rparr>"
  have g: "GetPlugin now channelID s = (Returns (Inr (Instance r)), ?s1)"
    using Cons.prems by (rule GetPlugin_registered)
  from Cons.prems(3) have a: "a < length (rec_objs s)"
    by (auto simp: deref_def split: if_splits)
  have 1: "\<not> writer (mutex ?s1)" using Cons.prems(1) by simp
  have 2: "map_get ?s1 (plugins ?s1) channelID = Some a"
    using Cons.prems(2) by simp
  have 3: "deref ?s1 a = Some ?r1"
    using a by (simp add: deref_def)
  note ih = Cons.IH[OF 1 2 3]
  show ?case
    using g ih by (simp add: add.assoc)
qed


text \<open>
  The statement-by-statement model agrees with \<^verbatim>\<open>GetPlugin\<close>: one goroutine running
  alone ends, after at most six statements, with the result and the state of the call.
\<close>

lemma run_alone_is_GetPlugin:
  assumes "\<not> writer (mutex s)"
  shows "run (replicate 6 (0, now)) ([(channelID, At_RLock)], s) =
     ([(channelID, Finished (fst (GetPlugin now channelID s)))], snd (GetPlugin now channelID s))"
  using assms
  by (auto simp: eval_nat_numeral GetPlugin_def with_RLock_def RLock_def GetPlugin_body_def
      RUnlock_def rec_update_def deref_def Let_def split: option.splits)

text \<open>
  C2, as the code has it for calls made one after the other. On a registered channel,
  with no writer holding the mutex, \<^verbatim>\<open>GetPlugin\<close> returns the stored instance and the
  record has \<^verbatim>\<open>LastUsed\<close> set to the time of the call and \<^verbatim>\<open>UsageCount\<close> one higher,
  both in the same call. After \<open>k\<close> such calls in sequence, \<open>0 < k < 2^63\<close>, on a record whose
  counter was 0, every call has returned the instance, the counter reads \<open>k\<close> and
  \<^verbatim>\<open>LastUsed\<close> is the time of the last call; the other fields are unchanged.
\<close>

theorem GetPlugin_serial_bookkeeping:
  assumes "\<not> writer (mutex s)" and "registered s channelID = Some r"
  shows "(\<exists>s'. GetPlugin now channelID s = (Returns (Inr (Instance r)), s') \<and>
            registered s' channelID = Some (r\<lparr>LastUsed := now, UsageCount := UsageCount r + 1\<rparr>)) \<and>
         (ts \<noteq> [] \<longrightarrow> UsageCount r = 0 \<longrightarrow> length ts < 2 ^ 63 \<longrightarrow>
            (\<exists>s' r'. GetPlugin_calls ts channelID s =
                 (replicate (length ts) (Returns (Inr (Instance r))), s') \<and>
               registered s' channelID = Some r' \<and>
               r' = r\<lparr>LastUsed := last ts, UsageCount := of_nat (length ts)\<rparr> \<and>
               sint (UsageCount r') = int (length ts) \<and> LastUsed r' = last ts))"
proof -
  from assms(2) obtain a where a: "map_get s (plugins s) channelID = Some a" "deref s a = Some r"
    by (auto dest: registered_SomeD)
  from a(2) have v: "a < length (rec_objs s)"
    by (auto simp: deref_def split: if_splits)
  have reg: "registered (s\<lparr>rec_objs := (rec_objs s)[a := x]\<rparr>) channelID = Some x" for x
    using a(1) v by (simp add: registered_def deref_def)
  have 1: "\<exists>s'. GetPlugin now channelID s = (Returns (Inr (Instance r)), s') \<and>
            registered s' channelID = Some (r\<lparr>LastUsed := now, UsageCount := UsageCount r + 1\<rparr>)"
    using GetPlugin_registered[OF assms(1) a] reg by simp
  have 2: "\<exists>s' r'. GetPlugin_calls ts channelID s =
                 (replicate (length ts) (Returns (Inr (Instance r))), s') \<and>
               registered s' channelID = Some r' \<and>
               r' = r\<lparr>LastUsed := last ts, UsageCount := of_nat (length ts)\<rparr> \<and>
               sint (UsageCount r') = int (length ts) \<and> LastUsed r' = last ts"
    if "ts \<noteq> []" "UsageCount r = 0" "length ts < 2 ^ 63"
    using GetPlugin_calls_registered[OF assms(1) a, of ts] that reg
    by (simp add: sint_of_nat_small)
  from 1 2 show ?thesis by blast
qed

theorem GetPlugin_serial_bookkeeping_witness:
  "\<not> writer (mutex one_loaded) \<and> registered one_loaded ''test'' = Some test_rec \<and>
   [310, 320, 330] \<noteq> ([] :: time list) \<and> UsageCount test_rec = 0 \<and>
   length [310, 320, 330 :: time] < 2 ^ 63 \<and>
   GetPlugin_calls [310, 320, 330] ''test'' one_loaded =
     (replicate 3 (Returns (Inr (PluginObj 0))),
      one_loaded\<lparr>rec_objs := [test_rec\<lparr>LastUsed := 330, UsageCount := 3\<rparr>]\<rparr>) \<and>
   (\<exists>s'. GetPlugin 310 ''test'' one_loaded = (Returns (Inr (Instance test_rec)), s') \<and>
      registered s' ''test'' = Some (test_rec\<lparr>LastUsed := 310, UsageCount := UsageCount test_rec + 1\<rparr>)) \<and>
   (\<exists>s' r'. GetPlugin_calls [310, 320, 330] ''test'' one_loaded =
        (replicate (length [310, 320, 330 :: time]) (Returns (Inr (Instance test_rec))), s') \<and>
      registered s' ''test'' = Some r' \<and>
      sint (UsageCount r') = 3 \<and> LastUsed r' = 330)"
proof -
  have 1: "\<not> writer (mutex one_loaded)"
    by (simp add: test_defs unlocked_def)
  have 2: "registered one_loaded ''test'' = Some test_rec"
    by (rule registered_one_loaded)
  have 3: "[310, 320, 330] \<noteq> ([] :: time list)" "UsageCount test_rec = 0"
    "length [310, 320, 330 :: time] < 2 ^ 63"
    by (simp_all add: test_rec_def)
  have 4: "GetPlugin_calls [310, 320, 330] ''test'' one_loaded =
     (replicate 3 (Returns (Inr (PluginObj 0))),
      one_loaded\<lparr>rec_objs := [test_rec\<lparr>LastUsed := 330, UsageCount := 3\<rparr>]\<rparr>)"
    by (simp add: op_defs lock_defs heap_defs one_loaded_def eval_nat_numeral)
       (simp add: test_rec_def)
  note t = GetPlugin_serial_bookkeeping [OF 1 2, of 310 "[310, 320, 330]"]
  from t have 5: "\<exists>s'. GetPlugin 310 ''test'' one_loaded = (Returns (Inr (Instance test_rec)), s') \<and>
      registered s' ''test'' = Some (test_rec\<lparr>LastUsed := 310, UsageCount := UsageCount test_rec + 1\<rparr>)"
    by blast
  from t 3 have 6: "\<exists>s' r'. GetPlugin_calls [310, 320, 330] ''test'' one_loaded =
        (replicate (length [310, 320, 330 :: time]) (Returns (Inr (Instance test_rec))), s') \<and>
      registered s' ''test'' = Some r' \<and>
      sint (UsageCount r') = 3 \<and> LastUsed r' = 330"
    by auto
  from 1 2 3 4 5 6 show ?thesis by blast
qed

text \<open>
  C2 as stated fails in two ways. For calls made at the same time: two goroutines in
  \<^verbatim>\<open>GetPlugin\<close> both hold the read lock, both read the counter 0 and both write 1, so
  after two successful calls the counter is 1. For the counter's type: it is an
  \<^verbatim>\<open>int64\<close>, so after \<open>2^63\<close> calls in sequence it reads \<open>- 2^63\<close>.
\<close>

theorem GetPlugin_count_not_calls:
  "map snd (fst (run racy_schedule ([(''test'', At_RLock), (''test'', At_RLock)], one_loaded))) =
     [Finished (Returns (Inr (PluginObj 0))), Finished (Returns (Inr (PluginObj 0)))] \<and>
   registered (snd (run racy_schedule ([(''test'', At_RLock), (''test'', At_RLock)], one_loaded)))
     ''test'' = Some (test_rec\<lparr>LastUsed := 301, UsageCount := 1\<rparr>) \<and>
   registered (snd (GetPlugin_calls (replicate (2 ^ 63) 300) ''test'' one_loaded)) ''test'' =
     Some (test_rec\<lparr>LastUsed := 300, UsageCount := 2 ^ 63\<rparr>) \<and>
   sint (UsageCount (test_rec\<lparr>LastUsed := 300, UsageCount := 2 ^ 63\<rparr>)) = - (2 ^ 63)"
proof -
  have r: "run racy_schedule ([(''test'', At_RLock), (''test'', At_RLock)], one_loaded) =
     ([(''test'', Finished (Returns (Inr (PluginObj 0)))),
       (''test'', Finished (Returns (Inr (PluginObj 0))))],
      one_loaded\<lparr>rec_objs := [test_rec\<lparr>LastUsed := 301, UsageCount := 1\<rparr>]\<rparr>)"
    by (simp add: racy_schedule_def lock_defs heap_defs one_loaded_def test_rec_def)
  have 1: "\<not> writer (mutex one_loaded)"
    by (simp add: test_defs unlocked_def)
  have 2: "map_get one_loaded (plugins one_loaded) ''test'' = Some 0"
    by (simp add: heap_defs test_defs)
  have 3: "deref one_loaded 0 = Some test_rec"
    by (simp add: heap_defs test_defs)
  have 4: "UsageCount test_rec = 0"
    by (simp add: test_rec_def)
  have 5: "replicate (2 ^ 63) (300::int) \<noteq> []"
    by simp
  have w: "registered (snd (GetPlugin_calls (replicate (2 ^ 63) 300) ''test'' one_loaded)) ''test'' =
     Some (test_rec\<lparr>LastUsed := 300, UsageCount := 2 ^ 63\<rparr>)"
    unfolding GetPlugin_calls_registered[OF 1 2 3]
    by (simp only: 5 if_False snd_conv length_replicate 4)
       (simp add: registered_def map_get_def map_entries_def deref_def one_loaded_def)
  have n: "sint (UsageCount (test_rec\<lparr>LastUsed := 300, UsageCount := 2 ^ 63\<rparr>)) = - (2 ^ 63)"
    by simp
  from r w n show ?thesis
    by (simp add: registered_def map_get_def map_entries_def deref_def one_loaded_def)
qed

section \<open>Concurrent calls of \<^verbatim>\<open>GetPlugin\<close>\<close>

text \<open>
  C9, at two goroutines calling \<^verbatim>\<open>GetPlugin\<close> for the registered channel \<^verbatim>\<open>test\<close>.
  \<^verbatim>\<open>GetPlugin\<close> takes the read lock, which both goroutines hold at once: after eight
  steps each has read the counter 0 and is about to write. At the end both calls have
  returned the instance and the counter is 1, not 2: one increment is lost. Run one after
  the other, the same two calls leave the counter at 2.
\<close>

theorem GetPlugin_lost_update:
  "run (take 8 racy_schedule) ([(''test'', At_RLock), (''test'', At_RLock)], one_loaded) =
     ([(''test'', At_write_UsageCount 0 0), (''test'', At_write_UsageCount 0 0)],
      one_loaded\<lparr>mutex := \<lparr>writer = False, readers = 2\<rparr>,
        rec_objs := [test_rec\<lparr>LastUsed := 301\<rparr>]\<rparr>) \<and>
   run racy_schedule ([(''test'', At_RLock), (''test'', At_RLock)], one_loaded) =
     ([(''test'', Finished (Returns (Inr (PluginObj 0)))),
       (''test'', Finished (Returns (Inr (PluginObj 0))))],
      one_loaded\<lparr>rec_objs := [test_rec\<lparr>LastUsed := 301, UsageCount := 1\<rparr>]\<rparr>) \<and>
   run (replicate 6 (0, 300) @ replicate 6 (1, 301))
       ([(''test'', At_RLock), (''test'', At_RLock)], one_loaded) =
     ([(''test'', Finished (Returns (Inr (PluginObj 0)))),
       (''test'', Finished (Returns (Inr (PluginObj 0))))],
      one_loaded\<lparr>rec_objs := [test_rec\<lparr>LastUsed := 301, UsageCount := 2\<rparr>]\<rparr>)"
  by (simp add: racy_schedule_def lock_defs heap_defs one_loaded_def test_rec_def eval_nat_numeral)

end
